theory Spec2Isabelle
  imports Complex_Main
begin

section \<open>Python values and errors\<close>

text \<open>
  The values the constructors of this development receive: \<open>None\<close>, integers, strings
  and (nested) tuples of them. They are hashable, and Python compares them
  structurally, so HOL equality is dictionary-key equality on them.
\<close>

datatype pyval = PNone | PInt int | PStr string | PTuple "pyval list"

text \<open>The exceptions raised by the code under study.\<close>

datatype error =
    KeyError | TypeError | IndexError | ValueError
  | AttributeError | NotImplementedError | IOError | RecursionError

text \<open>\<open>len(x)\<close>: defined on strings and tuples, a \<open>TypeError\<close> on \<open>None\<close> and integers.\<close>

fun py_len :: "pyval \<Rightarrow> error + nat" where
  "py_len PNone = Inl TypeError"
| "py_len (PInt i) = Inl TypeError"
| "py_len (PStr s) = Inr (length s)"
| "py_len (PTuple xs) = Inr (length xs)"

text \<open>Iterating a string yields its one-character strings; a tuple yields its items.\<close>

fun py_iter :: "pyval \<Rightarrow> pyval list" where
  "py_iter (PStr s) = map (\<lambda>c. PStr [c]) s"
| "py_iter (PTuple xs) = xs"
| "py_iter v = []"

text \<open>Truth value of \<open>x\<close> as used by \<open>x or y\<close>.\<close>

fun py_truthy :: "pyval \<Rightarrow> bool" where
  "py_truthy PNone = False"
| "py_truthy (PInt i) = (i \<noteq> 0)"
| "py_truthy (PStr s) = (s \<noteq> [])"
| "py_truthy (PTuple xs) = (xs \<noteq> [])"

definition py_or :: "pyval \<Rightarrow> pyval \<Rightarrow> pyval" where
  "py_or x y = (if py_truthy x then x else y)"

section \<open>Color (FGAme/draw/color.py)\<close>

text \<open>
  A \<open>Color\<close> instance has the four slots \<open>_red\<close>, \<open>_green\<close>, \<open>_blue\<close>, \<open>_alpha\<close>.
  The constructor stores whatever it unpacks from its arguments, so a slot holds a
  Python value, not necessarily an integer.
\<close>

record Color_instance =
  red :: pyval
  green :: pyval
  blue :: pyval
  alpha :: pyval

text \<open>What a call of the constructor evaluates to: \<open>None\<close> or a reference to an instance.\<close>

datatype obj = NoneObj | ColorRef nat

text \<open>
  The process-wide state: the class attribute \<open>_CACHE\<close> (a dictionary from keys to
  objects) and the instances allocated so far; a reference is an index into
  \<open>instances\<close>, and a new instance gets the next index.
\<close>

record color_state =
  CACHE :: "pyval \<rightharpoonup> obj"
  instances :: "Color_instance list"

text \<open>
  \<open>Color.__new__(cls, *args)\<close>. The result pairs what the call returns or raises
  with the state it leaves. In the four-component branch the instance is entered
  into the cache and then its slots are unpacked from \<open>args\<close>; the argument has
  length four there, so the unpacking cannot fail.
\<close>

function Color_new :: "color_state \<Rightarrow> pyval list \<Rightarrow> (error + obj) \<times> color_state" where
  "Color_new s args =
     (case CACHE s (PTuple args) of
        Some c \<Rightarrow> (Inr c, s)
      | None \<Rightarrow>
          (let a = (if length args = 1 then hd args else PTuple args) in
           case py_len a of
             Inl e \<Rightarrow> (Inl e, s)
           | Inr n \<Rightarrow>
               if n = 3 then
                 (case CACHE s a of
                    Some c \<Rightarrow> (Inr c, s)
                  | None \<Rightarrow>
                      (case a of
                         PTuple xs \<Rightarrow>
                           (case Color_new s (xs @ [PInt 255]) of
                              (Inl e, s') \<Rightarrow> (Inl e, s')
                            | (Inr new, s') \<Rightarrow>
                                (Inr new, s'\<lparr>CACHE := (CACHE s')(a \<mapsto> new)\<rparr>))
                       | _ \<Rightarrow> (Inl TypeError, s)))
               else if n = 4 then
                 (case CACHE s a of
                    Some c \<Rightarrow> (Inr c, s)
                  | None \<Rightarrow>
                      (case py_iter a of
                         [r, g, b, al] \<Rightarrow>
                           (let new = ColorRef (length (instances s)) in
                            (Inr new,
                             s\<lparr>CACHE := (CACHE s)(a \<mapsto> new),
                               instances := instances s @
                                 [\<lparr>red = r, green = g, blue = b, alpha = al\<rparr>]\<rparr>))
                       | _ \<Rightarrow> (Inl ValueError, s)))
               else
                 (case CACHE s a of
                    None \<Rightarrow> (Inl KeyError, s)
                  | Some c \<Rightarrow> (Inr NoneObj, s\<lparr>CACHE := (CACHE s)(a := None)\<rparr>))))"
  by pat_completeness auto
termination
  by (relation "measure (\<lambda>(s, args). if length args = 4 then 0 else 1)")
     (auto split: if_splits dest: sym [of "PTuple xs" for xs])

declare Color_new.simps [simp del]


text \<open>
  The colors named when the module is loaded: the dictionary passed to
  \<open>Color._CACHE.update\<close>, each value a constructor call evaluated in order, and then
  the five named keys entered.
\<close>

definition named_colors :: "(string \<times> pyval list) list" where
  "named_colors =
     [(''white'', [PInt 255, PInt 255, PInt 255]),
      (''black'', [PInt 0, PInt 0, PInt 0]),
      (''red'', [PInt 255, PInt 0, PInt 0]),
      (''green'', [PInt 0, PInt 255, PInt 0]),
      (''blue'', [PInt 0, PInt 0, PInt 255])]"

fun eval_values ::
  "color_state \<Rightarrow> (string \<times> pyval list) list \<Rightarrow> error + ((pyval \<times> obj) list \<times> color_state)" where
  "eval_values s [] = Inr ([], s)"
| "eval_values s ((name, args) # rest) =
     (case Color_new s args of
        (Inl e, s') \<Rightarrow> Inl e
      | (Inr c, s') \<Rightarrow>
          (case eval_values s' rest of
             Inl e \<Rightarrow> Inl e
           | Inr (kvs, s'') \<Rightarrow> Inr ((PTuple [PStr name], c) # kvs, s'')))"

definition dict_update :: "(pyval \<rightharpoonup> obj) \<Rightarrow> (pyval \<times> obj) list \<Rightarrow> (pyval \<rightharpoonup> obj)" where
  "dict_update d kvs = fold (\<lambda>(k, v) m. m(k \<mapsto> v)) kvs d"

definition module_load :: "error + color_state" where
  "module_load =
     (case eval_values \<lparr>CACHE = Map.empty, instances = []\<rparr> named_colors of
        Inl e \<Rightarrow> Inl e
      | Inr (kvs, s) \<Rightarrow> Inr (s\<lparr>CACHE := dict_update (CACHE s) kvs\<rparr>))"

text \<open>
  The state right after the module is loaded, written out (lemma
  \<open>module_load_state\<close> below shows it is what \<open>module_load\<close> computes): five instances,
  each under its three-component key, its four-component key and its name.
\<close>

definition module_state :: color_state where
  "module_state =
     \<lparr>CACHE =
        [PTuple [PInt 255, PInt 255, PInt 255, PInt 255] \<mapsto> ColorRef 0,
         PTuple [PInt 255, PInt 255, PInt 255] \<mapsto> ColorRef 0,
         PTuple [PInt 0, PInt 0, PInt 0, PInt 255] \<mapsto> ColorRef 1,
         PTuple [PInt 0, PInt 0, PInt 0] \<mapsto> ColorRef 1,
         PTuple [PInt 255, PInt 0, PInt 0, PInt 255] \<mapsto> ColorRef 2,
         PTuple [PInt 255, PInt 0, PInt 0] \<mapsto> ColorRef 2,
         PTuple [PInt 0, PInt 255, PInt 0, PInt 255] \<mapsto> ColorRef 3,
         PTuple [PInt 0, PInt 255, PInt 0] \<mapsto> ColorRef 3,
         PTuple [PInt 0, PInt 0, PInt 255, PInt 255] \<mapsto> ColorRef 4,
         PTuple [PInt 0, PInt 0, PInt 255] \<mapsto> ColorRef 4,
         PTuple [PStr ''white''] \<mapsto> ColorRef 0,
         PTuple [PStr ''black''] \<mapsto> ColorRef 1,
         PTuple [PStr ''red''] \<mapsto> ColorRef 2,
         PTuple [PStr ''green''] \<mapsto> ColorRef 3,
         PTuple [PStr ''blue''] \<mapsto> ColorRef 4],
      instances =
        [\<lparr>red = PInt 255, green = PInt 255, blue = PInt 255, alpha = PInt 255\<rparr>,
         \<lparr>red = PInt 0, green = PInt 0, blue = PInt 0, alpha = PInt 255\<rparr>,
         \<lparr>red = PInt 255, green = PInt 0, blue = PInt 0, alpha = PInt 255\<rparr>,
         \<lparr>red = PInt 0, green = PInt 255, blue = PInt 0, alpha = PInt 255\<rparr>,
         \<lparr>red = PInt 0, green = PInt 0, blue = PInt 255, alpha = PInt 255\<rparr>]\<rparr>"

text \<open>
  Any number of constructor calls, one after the other, whatever each returns or
  raises: the states a program can bring the cache to through the constructor.
\<close>

definition run :: "color_state \<Rightarrow> pyval list list \<Rightarrow> color_state" where
  "run s calls = foldl (\<lambda>st args. snd (Color_new st args)) s calls"

subsection \<open>Indexing and the tuple views\<close>

text \<open>
  Python's slicing of a sequence of length \<open>len\<close> with \<open>start:stop:step\<close>: the
  positions selected, after the defaults and the clamping of the bounds.
\<close>

definition slice_adjust :: "int \<Rightarrow> int \<Rightarrow> int \<Rightarrow> int" where
  "slice_adjust n step v =
     (if v < 0 then (if v + n < 0 then (if step < 0 then - 1 else 0) else v + n)
      else if n \<le> v then (if step < 0 then n - 1 else n)
      else v)"

definition slice_indices ::
  "nat \<Rightarrow> int option \<Rightarrow> int option \<Rightarrow> int option \<Rightarrow> error + nat list" where
  "slice_indices len start stop step =
     (let n = int len; st = (case step of None \<Rightarrow> 1 | Some k \<Rightarrow> k) in
      if st = 0 then Inl ValueError
      else
        (let lo = (case start of None \<Rightarrow> (if st < 0 then n - 1 else 0)
                   | Some v \<Rightarrow> slice_adjust n st v);
             hi = (case stop of None \<Rightarrow> (if st < 0 then - 1 else n)
                   | Some v \<Rightarrow> slice_adjust n st v);
             count = (if st < 0
                      then (if hi < lo then (lo - hi - 1) div (- st) + 1 else 0)
                      else (if lo < hi then (hi - lo - 1) div st + 1 else 0))
         in Inr (map (\<lambda>j. nat (lo + int j * st)) [0..<nat count])))"

text \<open>The class attribute \<open>_RANGE\<close> and \<open>__len__\<close>.\<close>

definition RANGE :: "int list" where
  "RANGE = [0, 1, 2, 3]"

definition Color_len :: "Color_instance \<Rightarrow> int" where
  "Color_len self = 4"

text \<open>A generator expression turned into a tuple: the first item that raises ends it.\<close>

fun collect :: "(error + 'a) list \<Rightarrow> error + 'a list" where
  "collect [] = Inr []"
| "collect (Inl e # rest) = Inl e"
| "collect (Inr v # rest) = (case collect rest of Inl e \<Rightarrow> Inl e | Inr vs \<Rightarrow> Inr (v # vs))"

datatype key = KInt int | KSlice "int option" "int option" "int option"

text \<open>
  \<open>Color.__getitem__(self, key)\<close>. In the integer branch a key that matches no test
  of the chain leaves the \<open>if\<close> and reaches the final \<open>raise IndexError(key)\<close>.
\<close>

function Color_getitem :: "Color_instance \<Rightarrow> key \<Rightarrow> error + pyval" where
  "Color_getitem self (KInt k) =
     (if k = 0 then Inr (red self)
      else if k = 1 then Inr (green self)
      else if k = 2 then Inr (blue self)
      else if k = 3 then Inr (alpha self)
      else if k < 0 then
        (let k' = Color_len self - k in
         if k' < 0 then Inl IndexError else Color_getitem self (KInt k'))
      else Inl IndexError)"
| "Color_getitem self (KSlice start stop step) =
     (case slice_indices (length RANGE) start stop step of
        Inl e \<Rightarrow> Inl e
      | Inr ps \<Rightarrow>
          (case collect (map (\<lambda>p. Color_getitem self (KInt (RANGE ! p))) ps) of
             Inl e \<Rightarrow> Inl e
           | Inr vs \<Rightarrow> Inr (PTuple vs)))"
  by pat_completeness auto
termination
  by (relation "measure (\<lambda>(self, k). case k of KSlice a b c \<Rightarrow> 2
                                    | KInt i \<Rightarrow> (if i < 0 then 1 else 0))")
     (auto simp: Color_len_def)

text \<open>\<open>__iter__\<close>, and the properties \<open>rgba\<close> (\<open>tuple(self)\<close>) and \<open>rgb\<close> (\<open>self[:3]\<close>).\<close>

definition Color_iter :: "Color_instance \<Rightarrow> pyval list" where
  "Color_iter self = [red self, green self, blue self, alpha self]"

definition Color_rgba :: "Color_instance \<Rightarrow> error + pyval" where
  "Color_rgba self = Inr (PTuple (Color_iter self))"

definition Color_rgb :: "Color_instance \<Rightarrow> error + pyval" where
  "Color_rgb self = Color_getitem self (KSlice None (Some 3) None)"

subsection \<open>The helpers \<open>rgb\<close> and \<open>rgba\<close>\<close>

text \<open>
  What the helpers receive: a plain value, a \<open>Color\<close> instance (given by its slots;
  instances are immutable), or some other object, given by its data attributes.
\<close>

datatype "value" = Plain pyval | Instance Color_instance | Object "(string \<times> pyval) list"

text \<open>
  The attributes \<open>rgb\<close> and \<open>rgba\<close> of what a constructor call returned: \<open>None\<close> has
  neither.
\<close>

definition result_rgb :: "color_state \<Rightarrow> obj \<Rightarrow> error + pyval" where
  "result_rgb s r =
     (case r of NoneObj \<Rightarrow> Inl AttributeError | ColorRef i \<Rightarrow> Color_rgb (instances s ! i))"

definition result_rgba :: "color_state \<Rightarrow> obj \<Rightarrow> error + pyval" where
  "result_rgba s r =
     (case r of NoneObj \<Rightarrow> Inl AttributeError | ColorRef i \<Rightarrow> Color_rgba (instances s ! i))"

text \<open>
  \<open>rgb(color)\<close>: \<open>try: return color.rgb\<close>, and \<open>except AttributeError: return
  Color(color or 'black').rgb\<close>. An instance has the property. An object has the
  attribute or not, and a plain value has not: then the handler runs. There an
  object is truthy, is not a key of the cache and has no length, so that
  \<open>Color(color)\<close> raises \<open>TypeError\<close> at \<open>len(args)\<close>. \<open>rgba\<close> is the same with the
  attribute \<open>rgba\<close>.
\<close>

definition rgb :: "color_state \<Rightarrow> value \<Rightarrow> (error + pyval) \<times> color_state" where
  "rgb s color =
     (case color of
        Instance c \<Rightarrow> (Color_rgb c, s)
      | Object tbl \<Rightarrow>
          (case map_of tbl ''rgb'' of
             Some v \<Rightarrow> (Inr v, s)
           | None \<Rightarrow> (Inl TypeError, s))
      | Plain v \<Rightarrow>
          (case Color_new s [py_or v (PStr ''black'')] of
             (Inl e, s') \<Rightarrow> (Inl e, s')
           | (Inr r, s') \<Rightarrow> (result_rgb s' r, s')))"

definition rgba :: "color_state \<Rightarrow> value \<Rightarrow> (error + pyval) \<times> color_state" where
  "rgba s color =
     (case color of
        Instance c \<Rightarrow> (Color_rgba c, s)
      | Object tbl \<Rightarrow>
          (case map_of tbl ''rgba'' of
             Some v \<Rightarrow> (Inr v, s)
           | None \<Rightarrow> (Inl TypeError, s))
      | Plain v \<Rightarrow>
          (case Color_new s [py_or v (PStr ''black'')] of
             (Inl e, s') \<Rightarrow> (Inl e, s')
           | (Inr r, s') \<Rightarrow> (result_rgba s' r, s')))"

subsection \<open>The invariant of the cache\<close>

text \<open>
  What the constructor maintains: every cached object is an allocated instance; a
  three-component key holds the object of the key completed with alpha 255; the
  instance under a key of length four has the four items of the key as its slots.
\<close>

definition interned :: "color_state \<Rightarrow> bool" where
  "interned s =
     ((\<forall>k v. CACHE s k = Some v \<longrightarrow> (\<exists>i. v = ColorRef i \<and> i < length (instances s))) \<and>
      (\<forall>xs v. length xs = 3 \<longrightarrow> CACHE s (PTuple xs) = Some v \<longrightarrow>
         CACHE s (PTuple (xs @ [PInt 255])) = Some v) \<and>
      (\<forall>k i. py_len k = Inr 4 \<longrightarrow> CACHE s k = Some (ColorRef i) \<longrightarrow>
         Color_iter (instances s ! i) = py_iter k))"

text \<open>
  The keys of the cache are tuples of length one, three or four and strings of length
  four.
\<close>

definition keys_shaped :: "color_state \<Rightarrow> bool" where
  "keys_shaped s =
     (\<forall>k v. CACHE s k = Some v \<longrightarrow>
        (\<exists>xs. k = PTuple xs \<and> (length xs = 1 \<or> length xs = 3 \<or> length xs = 4)) \<or>
        (\<exists>n. k = PStr n \<and> length n = 4))"

text \<open>
  The entry for the name \<open>black\<close> made when the module is loaded is still in the
  cache, and its instance is black.
\<close>

definition black_cached :: "color_state \<Rightarrow> bool" where
  "black_cached s =
     (\<exists>i. CACHE s (PTuple [PStr ''black'']) = Some (ColorRef i) \<and> i < length (instances s) \<and>
          instances s ! i = \<lparr>red = PInt 0, green = PInt 0, blue = PInt 0, alpha = PInt 255\<rparr>)"

section \<open>Circle (mathtools/pymath/circle.py)\<close>

text \<open>
  The primitive has the slots \<open>radius\<close> and \<open>pos\<close>. The numbers are left abstract:
  the methods below never read them.
\<close>

record 'a circle =
  radius :: 'a
  pos :: "'a \<times> 'a"

text \<open>
  \<open>Circle.intersects_circle(self, other)\<close>: the body is the docstring alone, so the
  call returns \<open>None\<close>. The result type is a truth value or \<open>None\<close>.
\<close>

definition intersects_circle :: "'a circle \<Rightarrow> 'a circle \<Rightarrow> bool option" where
  "intersects_circle self other = None"

section \<open>Textures (FGAme/draw/image.py)\<close>

text \<open>
  A \<open>Texture\<close> holds the decoded image and its path. Decoding is the external
  library's: \<open>decode path\<close> is the image, or \<open>None\<close> when opening or loading fails.
\<close>

record 'pil Texture =
  pil :: 'pil
  path :: string

text \<open>
  A call of \<open>get_texture\<close> by its positional arguments as passed. The cache of
  \<open>functools.lru_cache\<close> is keyed by them, before any default is filled in.
\<close>

datatype 'n tex_args = Call1 string | Call2 string 'n | Call3 string 'n 'n

fun path_of :: "'n tex_args \<Rightarrow> string" where
  "path_of (Call1 p) = p"
| "path_of (Call2 p th) = p"
| "path_of (Call3 p th sc) = p"

fun theta_of :: "('n::{zero,one}) tex_args \<Rightarrow> 'n" where
  "theta_of (Call1 p) = 0"
| "theta_of (Call2 p th) = th"
| "theta_of (Call3 p th sc) = th"

fun scale_of :: "('n::{zero,one}) tex_args \<Rightarrow> 'n" where
  "scale_of (Call1 p) = 1"
| "scale_of (Call2 p th) = 1"
| "scale_of (Call3 p th sc) = sc"

text \<open>
  The state: the cache, most recently used entry first, and the textures allocated so
  far (a reference is an index into \<open>textures\<close>).
\<close>

record ('n, 'pil) tex_state =
  lru :: "('n tex_args \<times> nat) list"
  textures :: "'pil Texture list"

definition maxsize :: nat where
  "maxsize = 512"

text \<open>A hit moves the entry to the front.\<close>

definition lru_touch :: "'k \<Rightarrow> 'v \<Rightarrow> ('k \<times> 'v) list \<Rightarrow> ('k \<times> 'v) list" where
  "lru_touch k v c = (k, v) # filter (\<lambda>(k', v'). k' \<noteq> k) c"

text \<open>
  After a miss the result is entered at the front, unless the key was entered while
  the function ran; a full cache first drops its oldest entry.
\<close>

definition lru_store :: "'k \<Rightarrow> 'v \<Rightarrow> ('k \<times> 'v) list \<Rightarrow> ('k \<times> 'v) list" where
  "lru_store k v c =
     (if map_of c k \<noteq> None then c
      else (k, v) # (if maxsize \<le> length c then butlast c else c))"

text \<open>\<open>Texture(path)\<close>: decode, then allocate.\<close>

definition Texture_new ::
  "(string \<Rightarrow> 'pil option) \<Rightarrow> ('n, 'pil) tex_state \<Rightarrow> string \<Rightarrow> (error + nat) \<times> ('n, 'pil) tex_state" where
  "Texture_new decode st p =
     (case decode p of
        None \<Rightarrow> (Inl IOError, st)
      | Some d \<Rightarrow>
          (Inr (length (textures st)), st\<lparr>textures := textures st @ [\<lparr>pil = d, path = p\<rparr>]\<rparr>))"

text \<open>
  Class \<open>Texture\<close> defines \<open>get_pil_data\<close>, \<open>set_data\<close>, \<open>get_data\<close>, \<open>shape\<close> and
  \<open>mode\<close>, and neither \<open>rotate\<close> nor \<open>rescale\<close>: looking either up on an instance
  raises \<open>AttributeError\<close>.
\<close>

definition Texture_rotate :: "nat \<Rightarrow> 'n \<Rightarrow> error + nat" where
  "Texture_rotate t theta = Inl AttributeError"

definition Texture_rescale :: "nat \<Rightarrow> 'n \<Rightarrow> error + nat" where
  "Texture_rescale t scale = Inl AttributeError"

text \<open>
  \<open>get_texture\<close>, the decorated function: the cache lookup, and on a miss the body,
  whose result is stored. An exception leaves the key unstored.
\<close>

function get_texture ::
  "(string \<Rightarrow> 'pil option) \<Rightarrow> ('n::{zero,one}, 'pil) tex_state \<Rightarrow> 'n tex_args
     \<Rightarrow> (error + nat) \<times> ('n, 'pil) tex_state" where
  "get_texture decode st c =
     (case map_of (lru st) c of
        Some t \<Rightarrow> (Inr t, st\<lparr>lru := lru_touch c t (lru st)\<rparr>)
      | None \<Rightarrow>
          (case (if theta_of c = 0 \<and> scale_of c = 1 then Texture_new decode st (path_of c)
                 else
                   (case get_texture decode st (Call1 (path_of c)) of
                      (Inl e, st') \<Rightarrow> (Inl e, st')
                    | (Inr base, st') \<Rightarrow>
                        (case Texture_rotate base (theta_of c) of
                           Inl e \<Rightarrow> (Inl e, st')
                         | Inr rotated \<Rightarrow> (Texture_rescale rotated (scale_of c), st'))))
           of
             (Inl e, st') \<Rightarrow> (Inl e, st')
           | (Inr t, st') \<Rightarrow> (Inr t, st'\<lparr>lru := lru_store c t (lru st')\<rparr>)))"
  by pat_completeness auto
termination
  by (relation "measure (\<lambda>(decode, st, c). if theta_of c = 0 \<and> scale_of c = 1 then 0 else 1)")
     auto

declare get_texture.simps [simp del]

text \<open>Calls one after the other, whatever each returns or raises.\<close>

definition get_textures ::
  "(string \<Rightarrow> 'pil option) \<Rightarrow> ('n::{zero,one}, 'pil) tex_state \<Rightarrow> 'n tex_args list
     \<Rightarrow> ('n, 'pil) tex_state" where
  "get_textures decode st cs = foldl (\<lambda>s c. snd (get_texture decode s c)) st cs"

section \<open>Shapes (FGAme/draw/base.py)\<close>

text \<open>
  The classes: \<open>Shape\<close> and its subclasses in base.py, and \<open>TextureImage\<close> for the class
  \<open>Image\<close> of image.py (also a subclass of \<open>AABB\<close>).
\<close>

datatype shape_class = Shape | Circle | AABB | Poly | Rectangle | Image | TextureImage

text \<open>The class attribute \<open>canvas_primitive\<close>, inherited where a class does not set it.\<close>

fun canvas_primitive :: "shape_class \<Rightarrow> string option" where
  "canvas_primitive Shape = None"
| "canvas_primitive Circle = Some ''circle''"
| "canvas_primitive AABB = Some ''aabb''"
| "canvas_primitive Poly = Some ''poly''"
| "canvas_primitive Rectangle = Some ''poly''"
| "canvas_primitive Image = Some ''image''"
| "canvas_primitive TextureImage = Some ''image''"

text \<open>
  An instance: its class and the slots \<open>geometric\<close> (a reference to the primitive),
  \<open>color\<close>, \<open>line_color\<close> and \<open>line_width\<close>.
\<close>

record shape =
  cls :: shape_class
  geometric :: nat
  color :: obj
  line_color :: obj
  line_width :: real

text \<open>
  The geometric primitives are objects of \<open>FGAme.mathutils\<close>, outside these sources.
  One is taken as its attribute table: data attributes with their values, and the
  names of its methods. What a method does to the primitive is a parameter
  (\<open>invoke name p x\<close>: the primitive after the in-place call, or the exception).
\<close>

record 'v primitive =
  attrs :: "(string \<times> 'v) list"
  methods :: "string list"

datatype 'v attribute = Data 'v | Method

definition prim_getattr :: "'v primitive \<Rightarrow> string \<Rightarrow> error + 'v attribute" where
  "prim_getattr p name =
     (case map_of (attrs p) name of
        Some v \<Rightarrow> Inr (Data v)
      | None \<Rightarrow> (if name \<in> set (methods p) then Inr Method else Inl AttributeError))"

text \<open>
  The store: the shape instances by reference (\<open>next_ref\<close> is the first unused one)
  and the primitives by reference.
\<close>

record 'v world =
  shapes :: "nat \<Rightarrow> shape"
  next_ref :: nat
  prims :: "nat \<Rightarrow> 'v primitive"

subsection \<open>Drawable: the in-place operations and the derived ones\<close>

text \<open>
  \<open>irotate\<close>, \<open>move\<close>, \<open>rescale\<close> and \<open>transform\<close> raise \<open>NotImplementedError\<close> in
  \<open>Drawable\<close>, and no class of base.py or image.py overrides them.
\<close>

definition irotate :: "'v world \<Rightarrow> nat \<Rightarrow> pyval \<Rightarrow> pyval \<Rightarrow> (error + unit) \<times> 'v world" where
  "irotate w self theta axis = (Inl NotImplementedError, w)"

definition move :: "'v world \<Rightarrow> nat \<Rightarrow> pyval \<Rightarrow> (error + unit) \<times> 'v world" where
  "move w self delta = (Inl NotImplementedError, w)"

definition rescale :: "'v world \<Rightarrow> nat \<Rightarrow> pyval \<Rightarrow> (error + unit) \<times> 'v world" where
  "rescale w self scale = (Inl NotImplementedError, w)"

definition transform :: "'v world \<Rightarrow> nat \<Rightarrow> pyval \<Rightarrow> (error + unit) \<times> 'v world" where
  "transform w self M = (Inl NotImplementedError, w)"

text \<open>
  \<open>Shape.__getattr__(self, attr)\<close> is \<open>getattr(self.geometric, attr)\<close>. On an instance
  whose slot \<open>geometric\<close> is not set, reading \<open>self.geometric\<close> fails, so Python calls
  \<open>__getattr__(self, 'geometric')\<close>, whose body reads \<open>self.geometric\<close> again, one frame
  deeper, until the interpreter's recursion limit. \<open>depth\<close> is the number of frames
  left; what such a read raises:
\<close>

fun unset_geometric :: "nat \<Rightarrow> error" where
  "unset_geometric 0 = RecursionError"
| "unset_geometric (Suc depth) = unset_geometric depth"

text \<open>
  \<open>copy\<close> is \<open>copy.copy(self)\<close>. The library rebuilds the instance from its reduce
  value: it creates a blank instance of the class and, before it sets any slot, asks
  \<open>hasattr(y, '__setstate__')\<close>. No class here defines \<open>__setstate__\<close>, so the lookup
  ends in \<open>Shape.__getattr__\<close> on the blank instance, which reads the unset slot.
  \<open>hasattr\<close> answers \<open>False\<close> on \<open>AttributeError\<close> only, and then the slots of the
  receiver are copied into the new instance (the shallow copy); any other exception
  leaves \<open>copy.copy\<close>.
\<close>

definition copy :: "nat \<Rightarrow> 'v world \<Rightarrow> nat \<Rightarrow> (error + nat) \<times> 'v world" where
  "copy depth w self =
     (let e = unset_geometric depth in
      if e = AttributeError
      then (Inr (next_ref w),
            w\<lparr>shapes := (shapes w)(next_ref w := shapes w self), next_ref := Suc (next_ref w)\<rparr>)
      else (Inl e, w))"

definition moved :: "nat \<Rightarrow> 'v world \<Rightarrow> nat \<Rightarrow> pyval \<Rightarrow> (error + nat) \<times> 'v world" where
  "moved depth w self delta =
     (case copy depth w self of
        (Inl e, w1) \<Rightarrow> (Inl e, w1)
      | (Inr new, w1) \<Rightarrow>
          (case move w1 new delta of
             (Inl e, w2) \<Rightarrow> (Inl e, w2)
           | (Inr u, w2) \<Rightarrow> (Inr new, w2)))"

text \<open>The derived rotation is the method \<open>rotate\<close>; \<open>Drawable\<close> has no \<open>rotated\<close>.\<close>

definition rotate ::
  "nat \<Rightarrow> 'v world \<Rightarrow> nat \<Rightarrow> pyval \<Rightarrow> pyval \<Rightarrow> (error + nat) \<times> 'v world" where
  "rotate depth w self theta axis =
     (case copy depth w self of
        (Inl e, w1) \<Rightarrow> (Inl e, w1)
      | (Inr new, w1) \<Rightarrow>
          (case irotate w1 new theta axis of
             (Inl e, w2) \<Rightarrow> (Inl e, w2)
           | (Inr u, w2) \<Rightarrow> (Inr new, w2)))"

definition transformed ::
  "nat \<Rightarrow> 'v world \<Rightarrow> nat \<Rightarrow> pyval \<Rightarrow> (error + nat) \<times> 'v world" where
  "transformed depth w self M =
     (case copy depth w self of
        (Inl e, w1) \<Rightarrow> (Inl e, w1)
      | (Inr new, w1) \<Rightarrow>
          (case transform w1 new M of
             (Inl e, w2) \<Rightarrow> (Inl e, w2)
           | (Inr u, w2) \<Rightarrow> (Inr new, w2)))"

text \<open>
  \<open>rescaled\<close> calls \<open>new.scale(value)\<close>. No class defines \<open>scale\<close>, so
  \<open>Shape.__getattr__\<close> looks it up on the primitive of the copy.
\<close>

definition rescaled ::
  "(string \<Rightarrow> 'v primitive \<Rightarrow> pyval \<Rightarrow> error + 'v primitive) \<Rightarrow> nat \<Rightarrow> 'v world \<Rightarrow> nat
     \<Rightarrow> pyval \<Rightarrow> (error + nat) \<times> 'v world" where
  "rescaled invoke depth w self val =
     (case copy depth w self of
        (Inl e, w1) \<Rightarrow> (Inl e, w1)
      | (Inr new, w1) \<Rightarrow>
          (let g = geometric (shapes w1 new) in
           case prim_getattr (prims w1 g) ''scale'' of
             Inl e \<Rightarrow> (Inl e, w1)
           | Inr (Data v) \<Rightarrow> (Inl TypeError, w1)
           | Inr Method \<Rightarrow>
               (case invoke ''scale'' (prims w1 g) val of
                  Inl e \<Rightarrow> (Inl e, w1)
                | Inr p' \<Rightarrow> (Inr new, w1\<lparr>prims := (prims w1)(g := p')\<rparr>))))"

subsection \<open>Drawing\<close>

text \<open>
  A canvas is taken as the names of the methods it has. What \<open>draw\<close> does is one
  call: on which object, which method, with which shape as the argument.
\<close>

datatype receiver = OnCanvas | OnPrimitive nat

record invocation =
  receiver :: receiver
  meth_name :: string
  argument :: nat

definition canvas_call :: "string list \<Rightarrow> string \<Rightarrow> nat \<Rightarrow> error + invocation" where
  "canvas_call canvas name self =
     (if name \<in> set canvas
      then Inr \<lparr>receiver = OnCanvas, meth_name = name, argument = self\<rparr>
      else Inl AttributeError)"

text \<open>
  \<open>Shape.draw\<close> builds the name from the tag (\<open>'draw_' + None\<close> is a \<open>TypeError\<close>);
  every subclass overrides it. \<open>Image.draw\<close> of base.py calls \<open>self.draw_image(self)\<close>:
  no class defines \<open>draw_image\<close>, so the lookup goes to the shape's own primitive.
\<close>

definition Shape_draw :: "'v world \<Rightarrow> string list \<Rightarrow> nat \<Rightarrow> error + invocation" where
  "Shape_draw w canvas self =
     (case canvas_primitive (cls (shapes w self)) of
        None \<Rightarrow> Inl TypeError
      | Some tag \<Rightarrow> canvas_call canvas (''draw_'' @ tag) self)"

definition draw :: "'v world \<Rightarrow> string list \<Rightarrow> nat \<Rightarrow> error + invocation" where
  "draw w canvas self =
     (case cls (shapes w self) of
        Shape \<Rightarrow> Shape_draw w canvas self
      | Circle \<Rightarrow> canvas_call canvas ''draw_circle'' self
      | AABB \<Rightarrow> canvas_call canvas ''draw_aabb'' self
      | Poly \<Rightarrow> canvas_call canvas ''draw_poly'' self
      | Rectangle \<Rightarrow> canvas_call canvas ''draw_poly'' self
      | Image \<Rightarrow>
          (let g = geometric (shapes w self) in
           case prim_getattr (prims w g) ''draw_image'' of
             Inl e \<Rightarrow> Inl e
           | Inr (Data v) \<Rightarrow> Inl TypeError
           | Inr Method \<Rightarrow>
               Inr \<lparr>receiver = OnPrimitive g, meth_name = ''draw_image'', argument = self\<rparr>)
      | TextureImage \<Rightarrow> canvas_call canvas ''draw_image'' self)"

subsection \<open>Vertices\<close>

text \<open>
  \<open>get_vertices\<close>: \<open>Shape\<close> and \<open>AABB\<close> raise \<open>NotImplementedError\<close>, \<open>Circle\<close> and the two
  image classes inherit that, \<open>Poly\<close> (and \<open>Rectangle\<close>, which inherits it) returns
  \<open>self.geometric.vertices\<close>.
\<close>

definition get_vertices :: "'v world \<Rightarrow> nat \<Rightarrow> 't \<Rightarrow> error + 'v attribute" where
  "get_vertices w self tol =
     (case cls (shapes w self) of
        Poly \<Rightarrow> prim_getattr (prims w (geometric (shapes w self))) ''vertices''
      | Rectangle \<Rightarrow> prim_getattr (prims w (geometric (shapes w self))) ''vertices''
      | _ \<Rightarrow> Inl NotImplementedError)"

subsection \<open>Construction\<close>

text \<open>
  \<open>Shape.__init__(self, geometric, color='black', line_color='black', line_width=0.0)\<close>.
\<close>

definition Shape_init ::
  "color_state \<Rightarrow> shape_class \<Rightarrow> nat \<Rightarrow> pyval \<Rightarrow> pyval \<Rightarrow> real \<Rightarrow> (error + shape) \<times> color_state" where
  "Shape_init s c g col lcol lw =
     (case Color_new s [col] of
        (Inl e, s1) \<Rightarrow> (Inl e, s1)
      | (Inr fill, s1) \<Rightarrow>
          (case Color_new s1 [lcol] of
             (Inl e, s2) \<Rightarrow> (Inl e, s2)
           | (Inr line, s2) \<Rightarrow>
               (Inr \<lparr>cls = c, geometric = g, color = fill, line_color = line, line_width = lw\<rparr>,
                s2)))"

text \<open>
  Keyword arguments collected by \<open>**kwds\<close>: the four that \<open>Shape.__init__\<close> knows, each
  passed or not, and the names of any others.
\<close>

record kwds =
  kw_geometric :: "nat option"
  kw_color :: "pyval option"
  kw_line_color :: "pyval option"
  kw_line_width :: "real option"
  kw_other :: "string list"

text \<open>
  \<open>Shape.__init__(self, **kwds)\<close>: binding fails with \<open>TypeError\<close> on a keyword the
  signature does not have and when \<open>geometric\<close> is not among them.
\<close>

definition Shape_init_kwds ::
  "color_state \<Rightarrow> shape_class \<Rightarrow> kwds \<Rightarrow> (error + shape) \<times> color_state" where
  "Shape_init_kwds s c k =
     (if kw_other k \<noteq> [] then (Inl TypeError, s)
      else
        (case kw_geometric k of
           None \<Rightarrow> (Inl TypeError, s)
         | Some g \<Rightarrow>
             Shape_init s c g
               (case kw_color k of None \<Rightarrow> PStr ''black'' | Some v \<Rightarrow> v)
               (case kw_line_color k of None \<Rightarrow> PStr ''black'' | Some v \<Rightarrow> v)
               (case kw_line_width k of None \<Rightarrow> 0 | Some v \<Rightarrow> v)))"

text \<open>
  \<open>Rectangle.__init__\<close>: \<open>m.Rectangle\<close> (outside these sources, the parameter
  \<open>mk_rect\<close>) builds the polygon from the eight geometry arguments or raises; the
  polygon is bound to \<open>obj\<close> and not used; then \<open>Shape.__init__(self, **kwds)\<close>.
\<close>

definition Rectangle_init ::
  "('a \<Rightarrow> error + 'p) \<Rightarrow> color_state \<Rightarrow> 'a \<Rightarrow> kwds \<Rightarrow> (error + shape) \<times> color_state" where
  "Rectangle_init mk_rect s geometry k =
     (case mk_rect geometry of
        Inl e \<Rightarrow> (Inl e, s)
      | Inr obj \<Rightarrow> Shape_init_kwds s Rectangle k)"

subsection \<open>Image (FGAme/draw/image.py)\<close>

text \<open>
  \<open>Image.__init__(self, path_or_texture, pos, reference)\<close>. A \<open>Texture\<close> is taken as it
  is, anything else is a path looked up with the one-argument call of \<open>get_texture\<close>.
  \<open>texture_shape t\<close> stands for \<open>asvector(self.texture.shape)\<close> and \<open>asvector\<close> for the
  function of \<open>FGAme.mathtools\<close>, both outside these sources. With the reference
  \<open>origin\<close> the constructor reads \<open>self.shape\<close>, the property of \<open>AABB\<close> that reads
  \<open>self.geometric\<close>, not set yet. With \<open>center\<close> it ends in
  \<open>super(AABB, self).__init__(pos=pos, shape=shape)\<close>, that is
  \<open>Shape.__init__\<close> with the keywords \<open>pos\<close> and \<open>shape\<close> and without \<open>geometric\<close>.
\<close>

datatype path_or_texture = APath string | ATexture nat

definition Image_init ::
  "nat \<Rightarrow> (string \<Rightarrow> 'pil option) \<Rightarrow> (nat \<Rightarrow> error + 'vec) \<Rightarrow> ('a \<Rightarrow> error + 'vec)
     \<Rightarrow> color_state \<Rightarrow> ('n::{zero,one}, 'pil) tex_state \<Rightarrow> path_or_texture \<Rightarrow> 'a \<Rightarrow> string
     \<Rightarrow> ((error + shape) \<times> color_state) \<times> ('n, 'pil) tex_state" where
  "Image_init depth decode texture_shape asvector s st x position reference =
     (case (case x of
              ATexture t \<Rightarrow> (Inr t, st)
            | APath p \<Rightarrow> get_texture decode st (Call1 p)) of
        (Inl e, st') \<Rightarrow> ((Inl e, s), st')
      | (Inr texture, st') \<Rightarrow>
          (case texture_shape texture of
             Inl e \<Rightarrow> ((Inl e, s), st')
           | Inr extent \<Rightarrow>
               if reference = ''center'' then
                 (case asvector position of
                    Inl e \<Rightarrow> ((Inl e, s), st')
                  | Inr position' \<Rightarrow>
                      (Shape_init_kwds s TextureImage
                         \<lparr>kw_geometric = None, kw_color = None, kw_line_color = None,
                           kw_line_width = None, kw_other = [''pos'', ''shape'']\<rparr>,
                       st'))
               else if reference = ''origin'' then ((Inl (unset_geometric depth), s), st')
               else ((Inl ValueError, s), st')))"

section \<open>Concrete inputs\<close>

text \<open>
  A store with four shapes (a circle, a box, a polygon and an image of base.py), each
  with a primitive of its own: the circle's has a radius and a position, the
  polygon's three vertices, the others the bounds of a box. No primitive has a method.
\<close>

definition example_world :: "pyval world" where
  "example_world =
     \<lparr>shapes = (\<lambda>r. \<lparr>cls = (if r = 0 then Circle else if r = 1 then AABB
                               else if r = 2 then Poly else Image),
                        geometric = r, color = ColorRef 1, line_color = ColorRef 1,
                        line_width = 0\<rparr>),
      next_ref = 4,
      prims = (\<lambda>r. if r = 0 then \<lparr>attrs = [(''radius'', PInt 1), (''pos'', PTuple [PInt 0, PInt 0])],
                                   methods = []\<rparr>
                    else if r = 2 then
                      \<lparr>attrs = [(''vertices'',
                                 PTuple [PTuple [PInt 0, PInt 0], PTuple [PInt 1, PInt 0],
                                         PTuple [PInt 0, PInt 1]])],
                        methods = []\<rparr>
                    else \<lparr>attrs = [(''xmin'', PInt 0), (''xmax'', PInt 1),
                                  (''ymin'', PInt 0), (''ymax'', PInt 1)],
                          methods = []\<rparr>)\<rparr>"

text \<open>A canvas with the four drawing methods.\<close>

definition full_canvas :: "string list" where
  "full_canvas = [''draw_circle'', ''draw_aabb'', ''draw_poly'', ''draw_image'']"

text \<open>A call that passes no keyword argument.\<close>

definition no_kwds :: kwds where
  "no_kwds = \<lparr>kw_geometric = None, kw_color = None, kw_line_color = None,
               kw_line_width = None, kw_other = []\<rparr>"

text \<open>
  The texture cache before any call, for integer angles and scales and an image
  library that decodes every path (to the path itself).
\<close>

definition empty_cache :: "(int, string) tex_state" where
  "empty_cache = \<lparr>lru = [], textures = []\<rparr>"

section \<open>Properties of the constructor\<close>

text \<open>Loading the module succeeds and gives the state written out above.\<close>

lemma module_load_state: "module_load = Inr module_state"
  by (simp add: module_load_def named_colors_def Color_new.simps module_state_def
      dict_update_def Let_def eval_nat_numeral)

lemma Color_new_4:
  assumes "length args = 4"
  shows "Color_new s args =
     (case CACHE s (PTuple args) of
        Some c \<Rightarrow> (Inr c, s)
      | None \<Rightarrow>
          (Inr (ColorRef (length (instances s))),
           s\<lparr>CACHE := (CACHE s)(PTuple args \<mapsto> ColorRef (length (instances s))),
             instances := instances s @
               [\<lparr>red = args ! 0, green = args ! 1, blue = args ! 2, alpha = args ! 3\<rparr>]\<rparr>))"
proof -
  from assms obtain r g b al where args: "args = [r, g, b, al]"
    by (auto simp: length_Suc_conv eval_nat_numeral)
  show ?thesis
    unfolding args by (subst Color_new.simps) (simp add: Let_def split: option.splits)
qed

lemma Color_new_hit:
  "CACHE s (PTuple args) = Some c \<Longrightarrow> Color_new s args = (Inr c, s)"
  by (subst Color_new.simps) simp

lemma Color_new_len_error:
  "CACHE s (PTuple args) = None \<Longrightarrow>
   py_len (if length args = 1 then hd args else PTuple args) = Inl e \<Longrightarrow>
   Color_new s args = (Inl e, s)"
  by (subst Color_new.simps) (simp add: Let_def)

lemma Color_new_3_hit:
  "CACHE s (PTuple args) = None \<Longrightarrow>
   a = (if length args = 1 then hd args else PTuple args) \<Longrightarrow>
   py_len a = Inr 3 \<Longrightarrow> CACHE s a = Some c \<Longrightarrow>
   Color_new s args = (Inr c, s)"
  by (subst Color_new.simps) (simp add: Let_def)

lemma Color_new_3_str:
  "CACHE s (PTuple args) = None \<Longrightarrow>
   (if length args = 1 then hd args else PTuple args) = PStr x \<Longrightarrow>
   length x = 3 \<Longrightarrow> CACHE s (PStr x) = None \<Longrightarrow>
   Color_new s args = (Inl TypeError, s)"
  by (subst Color_new.simps) (simp add: Let_def)

lemma Color_new_3_tuple:
  "CACHE s (PTuple args) = None \<Longrightarrow>
   (if length args = 1 then hd args else PTuple args) = PTuple xs \<Longrightarrow>
   length xs = 3 \<Longrightarrow> CACHE s (PTuple xs) = None \<Longrightarrow>
   Color_new s args =
     (case CACHE s (PTuple (xs @ [PInt 255])) of
        Some c \<Rightarrow> (Inr c, s\<lparr>CACHE := (CACHE s)(PTuple xs \<mapsto> c)\<rparr>)
      | None \<Rightarrow>
          (Inr (ColorRef (length (instances s))),
           s\<lparr>CACHE := (CACHE s)(PTuple (xs @ [PInt 255]) \<mapsto> ColorRef (length (instances s)),
                                PTuple xs \<mapsto> ColorRef (length (instances s))),
             instances := instances s @
               [\<lparr>red = xs ! 0, green = xs ! 1, blue = xs ! 2, alpha = PInt 255\<rparr>]\<rparr>))"
  by (subst Color_new.simps) (simp add: Let_def Color_new_4 nth_append split: option.splits)

lemma py_iter_4:
  "py_len a = Inr 4 \<Longrightarrow> \<exists>r g b al. py_iter a = [r, g, b, al]"
  by (cases a) (auto simp: length_Suc_conv eval_nat_numeral)

lemma Color_new_4_hit:
  "CACHE s (PTuple args) = None \<Longrightarrow>
   a = (if length args = 1 then hd args else PTuple args) \<Longrightarrow>
   py_len a = Inr 4 \<Longrightarrow> CACHE s a = Some c \<Longrightarrow>
   Color_new s args = (Inr c, s)"
  by (subst Color_new.simps) (simp add: Let_def)

lemma Color_new_4_new:
  assumes "CACHE s (PTuple args) = None"
    and "a = (if length args = 1 then hd args else PTuple args)"
    and "py_len a = Inr 4" and "CACHE s a = None"
  shows "Color_new s args =
     (Inr (ColorRef (length (instances s))),
      s\<lparr>CACHE := (CACHE s)(a \<mapsto> ColorRef (length (instances s))),
        instances := instances s @
          [\<lparr>red = py_iter a ! 0, green = py_iter a ! 1, blue = py_iter a ! 2,
            alpha = py_iter a ! 3\<rparr>]\<rparr>)"
proof -
  from py_iter_4 [OF assms(3)] obtain r g b al where it: "py_iter a = [r, g, b, al]"
    by blast
  show ?thesis
    using assms it by (subst Color_new.simps) (simp add: Let_def)
qed

lemma Color_new_del_miss:
  "CACHE s (PTuple args) = None \<Longrightarrow>
   a = (if length args = 1 then hd args else PTuple args) \<Longrightarrow>
   py_len a = Inr n \<Longrightarrow> n \<noteq> 3 \<Longrightarrow> n \<noteq> 4 \<Longrightarrow> CACHE s a = None \<Longrightarrow>
   Color_new s args = (Inl KeyError, s)"
  by (subst Color_new.simps) (simp add: Let_def)

lemma Color_new_del_hit:
  "CACHE s (PTuple args) = None \<Longrightarrow>
   a = (if length args = 1 then hd args else PTuple args) \<Longrightarrow>
   py_len a = Inr n \<Longrightarrow> n \<noteq> 3 \<Longrightarrow> n \<noteq> 4 \<Longrightarrow> CACHE s a = Some c \<Longrightarrow>
   Color_new s args = (Inr NoneObj, s\<lparr>CACHE := (CACHE s)(a := None)\<rparr>)"
  by (subst Color_new.simps) (simp add: Let_def)


text \<open>Every call leaves the state in one of five shapes.\<close>

lemma Color_new_effect:
  obtains
    (same) "snd (Color_new s args) = s"
  | (enter4) k where "py_len k = Inr 4" "CACHE s k = None"
      "snd (Color_new s args) =
         s\<lparr>CACHE := (CACHE s)(k \<mapsto> ColorRef (length (instances s))),
           instances := instances s @
             [\<lparr>red = py_iter k ! 0, green = py_iter k ! 1, blue = py_iter k ! 2,
               alpha = py_iter k ! 3\<rparr>]\<rparr>"
  | (enter3) xs c where "length xs = 3" "CACHE s (PTuple xs) = None"
      "CACHE s (PTuple (xs @ [PInt 255])) = Some c"
      "snd (Color_new s args) = s\<lparr>CACHE := (CACHE s)(PTuple xs \<mapsto> c)\<rparr>"
  | (enter34) xs where "length xs = 3" "CACHE s (PTuple xs) = None"
      "CACHE s (PTuple (xs @ [PInt 255])) = None"
      "snd (Color_new s args) =
         s\<lparr>CACHE := (CACHE s)(PTuple (xs @ [PInt 255]) \<mapsto> ColorRef (length (instances s)),
                              PTuple xs \<mapsto> ColorRef (length (instances s))),
           instances := instances s @
             [\<lparr>red = xs ! 0, green = xs ! 1, blue = xs ! 2, alpha = PInt 255\<rparr>]\<rparr>"
  | (delete) k n c where "py_len k = Inr n" "n \<noteq> 3" "n \<noteq> 4" "CACHE s k = Some c"
      "length args = 1" "k = hd args"
      "snd (Color_new s args) = s\<lparr>CACHE := (CACHE s)(k := None)\<rparr>"
proof (cases "CACHE s (PTuple args)")
  case (Some c)
  then show ?thesis using same by (simp add: Color_new_hit)
next
  case None
  define a where "a = (if length args = 1 then hd args else PTuple args)"
  show ?thesis
  proof (cases "py_len a")
    case (Inl e)
    then show ?thesis using same None by (simp add: Color_new_len_error a_def)
  next
    case (Inr n)
    consider (three) "n = 3" | (four) "n = 4" | (other) "n \<noteq> 3" "n \<noteq> 4" by blast
    then show ?thesis
    proof cases
      case three
      show ?thesis
      proof (cases "CACHE s a")
        case (Some c)
        then show ?thesis using same None Inr three Color_new_3_hit [OF None a_def] by simp
      next
        case miss: None
        show ?thesis
        proof (cases a)
          case (PTuple xs)
          then have len: "length xs = 3" using Inr three by simp
          have eq: "(if length args = 1 then hd args else PTuple args) = PTuple xs"
            using PTuple a_def by simp
          have m: "CACHE s (PTuple xs) = None" using miss PTuple by simp
          note r = Color_new_3_tuple [OF None eq len m]
          show ?thesis
          proof (cases "CACHE s (PTuple (xs @ [PInt 255]))")
            case None
            then show ?thesis using enter34 [of xs] len m r by simp
          next
            case (Some c)
            then show ?thesis using enter3 [of xs c] len m r by simp
          qed
        next
          case (PStr x)
          then have "length x = 3" using Inr three by simp
          moreover have "(if length args = 1 then hd args else PTuple args) = PStr x"
            using PStr a_def by simp
          moreover have "CACHE s (PStr x) = None" using miss PStr by simp
          ultimately show ?thesis using same Color_new_3_str [OF None] by simp
        next
          case PNone
          then show ?thesis using Inr by simp
        next
          case (PInt i)
          then show ?thesis using Inr by simp
        qed
      qed
    next
      case four
      show ?thesis
      proof (cases "CACHE s a")
        case (Some c)
        then show ?thesis using same None Inr four Color_new_4_hit [OF None a_def] by simp
      next
        case miss: None
        have "py_len a = Inr 4" using Inr four by simp
        from Color_new_4_new [OF None a_def this miss] enter4 [of a] this miss
        show ?thesis by simp
      qed
    next
      case other
      show ?thesis
      proof (cases "CACHE s a")
        case miss: None
        from Color_new_del_miss [OF None a_def Inr other miss] same show ?thesis by simp
      next
        case (Some c)
        have one: "length args = 1"
        proof (rule ccontr)
          assume "length args \<noteq> 1"
          then have "a = PTuple args" by (simp add: a_def)
          with None Some show False by simp
        qed
        then have "a = hd args" by (simp add: a_def)
        with Color_new_del_hit [OF None a_def Inr other Some] delete [of a n c] Inr other Some one
        show ?thesis by simp
      qed
    qed
  qed
qed


lemma interned_refs:
  "interned s \<Longrightarrow> CACHE s k = Some v \<Longrightarrow> \<exists>i. v = ColorRef i \<and> i < length (instances s)"
  unfolding interned_def by blast

lemma interned_alpha:
  "interned s \<Longrightarrow> length xs = 3 \<Longrightarrow> CACHE s (PTuple xs) = Some v \<Longrightarrow>
   CACHE s (PTuple (xs @ [PInt 255])) = Some v"
  unfolding interned_def by blast

lemma interned_slots:
  "interned s \<Longrightarrow> py_len k = Inr 4 \<Longrightarrow> CACHE s k = Some (ColorRef i) \<Longrightarrow>
   Color_iter (instances s ! i) = py_iter k"
  unfolding interned_def by blast

lemma interned_module_state: "interned module_state"
  unfolding interned_def
proof (intro conjI allI impI)
  fix k v assume "CACHE module_state k = Some v"
  then show "\<exists>i. v = ColorRef i \<and> i < length (instances module_state)"
    by (auto simp: module_state_def split: if_splits)
next
  fix xs v assume "length xs = 3" "CACHE module_state (PTuple xs) = Some v"
  then show "CACHE module_state (PTuple (xs @ [PInt 255])) = Some v"
    by (auto simp: module_state_def split: if_splits)
next
  fix k i assume "py_len k = Inr 4" "CACHE module_state k = Some (ColorRef i)"
  then show "Color_iter (instances module_state ! i) = py_iter k"
    by (auto simp: module_state_def Color_iter_def split: if_splits)
qed


lemma Color_new_keeps:
  assumes "CACHE s k = Some v" and "py_len k = Inr 3 \<or> py_len k = Inr 4"
  shows "CACHE (snd (Color_new s args)) k = Some v"
proof (cases rule: Color_new_effect [of s args])
  case same
  then show ?thesis using assms by simp
next
  case (enter4 k')
  then show ?thesis using assms by auto
next
  case (enter3 xs c)
  then show ?thesis using assms by auto
next
  case (enter34 xs)
  then show ?thesis using assms by auto
next
  case (delete k' n c)
  then show ?thesis using assms by auto
qed

lemma Color_new_instances:
  "\<exists>more. instances (snd (Color_new s args)) = instances s @ more"
  by (cases rule: Color_new_effect [of s args]) auto

lemma interned_enter4:
  assumes inv: "interned s" and k: "py_len k = Inr 4" and miss: "CACHE s k = None"
  shows "interned (s\<lparr>CACHE := (CACHE s)(k \<mapsto> ColorRef (length (instances s))),
           instances := instances s @
             [\<lparr>red = py_iter k ! 0, green = py_iter k ! 1, blue = py_iter k ! 2,
               alpha = py_iter k ! 3\<rparr>]\<rparr>)"
proof -
  have no3: "CACHE s (PTuple xs) = None" if "length xs = 3" "k = PTuple (xs @ [PInt 255])" for xs
  proof (rule ccontr)
    assume "CACHE s (PTuple xs) \<noteq> None"
    then obtain v where "CACHE s (PTuple xs) = Some v" by blast
    from interned_alpha [OF inv that(1) this] miss that(2) show False by simp
  qed
  show ?thesis
    unfolding interned_def
  proof (intro conjI allI impI, goal_cases)
    case (1 k' v)
    then show ?case
      using interned_refs [OF inv, of k' v] by (auto split: if_splits)
  next
    case (2 xs v)
    then show ?case
      using interned_alpha [OF inv, of xs v] no3 [of xs] k by (auto split: if_splits)
  next
    case (3 k' i)
    then show ?case
      using interned_slots [OF inv, of k' i] interned_refs [OF inv, of k' "ColorRef i"]
        py_iter_4 [OF k]
      by (auto simp: nth_append Color_iter_def split: if_splits)
  qed
qed

lemma interned_enter3:
  assumes inv: "interned s" and len: "length xs = 3"
    and hit: "CACHE s (PTuple (xs @ [PInt 255])) = Some c"
  shows "interned (s\<lparr>CACHE := (CACHE s)(PTuple xs \<mapsto> c)\<rparr>)"
  unfolding interned_def
proof (intro conjI allI impI, goal_cases)
  case (1 k' v)
  then show ?case
    using interned_refs [OF inv, of k' v] interned_refs [OF inv hit] by (auto split: if_splits)
next
  case (2 ys v)
  then show ?case
    using interned_alpha [OF inv, of ys v] hit len by (auto split: if_splits)
next
  case (3 k' i)
  then show ?case
    using interned_slots [OF inv, of k' i] len by (auto split: if_splits)
qed

lemma interned_delete:
  assumes inv: "interned s" and k: "py_len k = Inr n" and n: "n \<noteq> 3" "n \<noteq> 4"
  shows "interned (s\<lparr>CACHE := (CACHE s)(k := None)\<rparr>)"
  unfolding interned_def
proof (intro conjI allI impI, goal_cases)
  case (1 k' v)
  then show ?case
    using interned_refs [OF inv, of k' v] by (auto split: if_splits)
next
  case (2 ys v)
  then show ?case
    using interned_alpha [OF inv, of ys v] k n by (auto split: if_splits)
next
  case (3 k' i)
  then show ?case
    using interned_slots [OF inv, of k' i] by (auto split: if_splits)
qed

lemma interned_Color_new:
  assumes inv: "interned s"
  shows "interned (snd (Color_new s args))"
proof (cases rule: Color_new_effect [of s args])
  case same
  then show ?thesis using inv by simp
next
  case (enter4 k)
  from interned_enter4 [OF inv enter4(1,2)] show ?thesis by (simp only: enter4(3))
next
  case (enter3 xs c)
  from interned_enter3 [OF inv enter3(1,3)] show ?thesis by (simp only: enter3(4))
next
  case (enter34 xs)
  let ?k = "PTuple (xs @ [PInt 255])"
  let ?s1 = "s\<lparr>CACHE := (CACHE s)(?k \<mapsto> ColorRef (length (instances s))),
           instances := instances s @
             [\<lparr>red = py_iter ?k ! 0, green = py_iter ?k ! 1, blue = py_iter ?k ! 2,
               alpha = py_iter ?k ! 3\<rparr>]\<rparr>"
  have "py_len ?k = Inr 4" using enter34(1) by simp
  from interned_enter4 [OF inv this enter34(3)] have "interned ?s1" .
  from interned_enter3 [OF this enter34(1), of "ColorRef (length (instances s))"]
  have inv2: "interned (?s1\<lparr>CACHE := (CACHE ?s1)(PTuple xs \<mapsto> ColorRef (length (instances s)))\<rparr>)"
    by simp
  have "snd (Color_new s args) =
      ?s1\<lparr>CACHE := (CACHE ?s1)(PTuple xs \<mapsto> ColorRef (length (instances s)))\<rparr>"
    unfolding enter34(4) using enter34(1) by (cases s) (simp add: nth_append)
  with inv2 show ?thesis by (simp only:)
next
  case (delete k n c)
  from interned_delete [OF inv delete(1,2,3)] show ?thesis by (simp only: delete(7))
qed

lemma interned_run: "interned s \<Longrightarrow> interned (run s calls)"
  unfolding run_def by (induction calls arbitrary: s) (simp_all add: interned_Color_new)

lemma run_keeps:
  "CACHE s k = Some v \<Longrightarrow> py_len k = Inr 3 \<or> py_len k = Inr 4 \<Longrightarrow>
   CACHE (run s calls) k = Some v"
  unfolding run_def by (induction calls arbitrary: s) (simp_all add: Color_new_keeps)


lemma Color_new_3_result:
  assumes inv: "interned s" and len: "length xs = 3"
  shows "\<exists>c. fst (Color_new s xs) = Inr (ColorRef c) \<and>
             CACHE (snd (Color_new s xs)) (PTuple xs) = Some (ColorRef c)"
proof (cases "CACHE s (PTuple xs)")
  case (Some v)
  with interned_refs [OF inv Some] show ?thesis by (auto simp: Color_new_hit)
next
  case None
  have a: "(if length xs = 1 then hd xs else PTuple xs) = PTuple xs" using len by simp
  note r = Color_new_3_tuple [OF None a len None]
  show ?thesis
  proof (cases "CACHE s (PTuple (xs @ [PInt 255]))")
    case None
    then show ?thesis using r by simp
  next
    case (Some v)
    with interned_refs [OF inv Some] show ?thesis using r by auto
  qed
qed

lemma Color_new_4_result:
  assumes inv: "interned s" and len: "length xs = 4"
  shows "\<exists>c. fst (Color_new s xs) = Inr (ColorRef c) \<and>
             CACHE (snd (Color_new s xs)) (PTuple xs) = Some (ColorRef c)"
proof (cases "CACHE s (PTuple xs)")
  case (Some v)
  with interned_refs [OF inv Some] show ?thesis by (auto simp: Color_new_hit)
next
  case None
  then show ?thesis by (simp add: Color_new_4 [OF len])
qed

lemma Color_instance_eq:
  "Color_iter c = [r, g, b, al] \<Longrightarrow> c = \<lparr>red = r, green = g, blue = b, alpha = al\<rparr>"
  by (cases c) (simp add: Color_iter_def)

text \<open>
  C1. From the state the module is loaded into, after any constructor calls
  \<open>before\<close>: the call with three integer components returns an instance, and after
  any further calls \<open>between\<close> the same call and the call with alpha 255 added both
  return that very instance (the same reference) and change nothing; the instance
  holds the components with alpha 255. Likewise for four components.
\<close>

theorem Color_canonical:
  fixes r g b a :: int
  shows
    "(\<exists>c. let t = [PInt r, PInt g, PInt b];
              s = run module_state before;
              s2 = run (snd (Color_new s t)) between
          in fst (Color_new s t) = Inr (ColorRef c) \<and>
             Color_new s2 t = (Inr (ColorRef c), s2) \<and>
             Color_new s2 (t @ [PInt 255]) = (Inr (ColorRef c), s2) \<and>
             c < length (instances s2) \<and>
             instances s2 ! c = \<lparr>red = PInt r, green = PInt g, blue = PInt b, alpha = PInt 255\<rparr>) \<and>
     (\<exists>c. let t = [PInt r, PInt g, PInt b, PInt a];
              s = run module_state before;
              s2 = run (snd (Color_new s t)) between
          in fst (Color_new s t) = Inr (ColorRef c) \<and>
             Color_new s2 t = (Inr (ColorRef c), s2) \<and>
             c < length (instances s2) \<and>
             instances s2 ! c = \<lparr>red = PInt r, green = PInt g, blue = PInt b, alpha = PInt a\<rparr>)"
proof (intro conjI)
  define s where "s = run module_state before"
  have inv: "interned s" unfolding s_def by (rule interned_run [OF interned_module_state])
  {
    define t where "t = [PInt r, PInt g, PInt b]"
    define s2 where "s2 = run (snd (Color_new s t)) between"
    have len: "length t = 3" by (simp add: t_def)
    from Color_new_3_result [OF inv len] obtain c where
      c: "fst (Color_new s t) = Inr (ColorRef c)"
        "CACHE (snd (Color_new s t)) (PTuple t) = Some (ColorRef c)" by blast
    have inv1: "interned (snd (Color_new s t))" by (rule interned_Color_new [OF inv])
    have inv2: "interned s2" unfolding s2_def by (rule interned_run [OF inv1])
    have k3: "CACHE s2 (PTuple t) = Some (ColorRef c)"
      unfolding s2_def using c(2) len by (intro run_keeps) simp_all
    from interned_alpha [OF inv2 len k3]
    have k4: "CACHE s2 (PTuple (t @ [PInt 255])) = Some (ColorRef c)" .
    have "py_len (PTuple (t @ [PInt 255])) = Inr 4" using len by simp
    from interned_slots [OF inv2 this k4]
    have "Color_iter (instances s2 ! c) = [PInt r, PInt g, PInt b, PInt 255]"
      by (simp add: t_def)
    then have slots: "instances s2 ! c =
        \<lparr>red = PInt r, green = PInt g, blue = PInt b, alpha = PInt 255\<rparr>"
      by (rule Color_instance_eq)
    from interned_refs [OF inv2 k3] have "c < length (instances s2)" by simp
    with c(1) k3 k4 slots
    have "\<exists>c. fst (Color_new s t) = Inr (ColorRef c) \<and>
             Color_new s2 t = (Inr (ColorRef c), s2) \<and>
             Color_new s2 (t @ [PInt 255]) = (Inr (ColorRef c), s2) \<and>
             c < length (instances s2) \<and>
             instances s2 ! c = \<lparr>red = PInt r, green = PInt g, blue = PInt b, alpha = PInt 255\<rparr>"
      by (auto simp: Color_new_hit)
  }
  then show "\<exists>c. let t = [PInt r, PInt g, PInt b];
              s = run module_state before;
              s2 = run (snd (Color_new s t)) between
          in fst (Color_new s t) = Inr (ColorRef c) \<and>
             Color_new s2 t = (Inr (ColorRef c), s2) \<and>
             Color_new s2 (t @ [PInt 255]) = (Inr (ColorRef c), s2) \<and>
             c < length (instances s2) \<and>
             instances s2 ! c = \<lparr>red = PInt r, green = PInt g, blue = PInt b, alpha = PInt 255\<rparr>"
    unfolding Let_def s_def by simp
  {
    define t where "t = [PInt r, PInt g, PInt b, PInt a]"
    define s2 where "s2 = run (snd (Color_new s t)) between"
    have len: "length t = 4" by (simp add: t_def)
    from Color_new_4_result [OF inv len] obtain c where
      c: "fst (Color_new s t) = Inr (ColorRef c)"
        "CACHE (snd (Color_new s t)) (PTuple t) = Some (ColorRef c)" by blast
    have inv1: "interned (snd (Color_new s t))" by (rule interned_Color_new [OF inv])
    have inv2: "interned s2" unfolding s2_def by (rule interned_run [OF inv1])
    have k4: "CACHE s2 (PTuple t) = Some (ColorRef c)"
      unfolding s2_def using c(2) len by (intro run_keeps) simp_all
    have "py_len (PTuple t) = Inr 4" using len by simp
    from interned_slots [OF inv2 this k4]
    have "Color_iter (instances s2 ! c) = [PInt r, PInt g, PInt b, PInt a]"
      by (simp add: t_def)
    then have slots: "instances s2 ! c =
        \<lparr>red = PInt r, green = PInt g, blue = PInt b, alpha = PInt a\<rparr>"
      by (rule Color_instance_eq)
    from interned_refs [OF inv2 k4] have "c < length (instances s2)" by simp
    with c(1) k4 slots
    have "\<exists>c. fst (Color_new s t) = Inr (ColorRef c) \<and>
             Color_new s2 t = (Inr (ColorRef c), s2) \<and>
             c < length (instances s2) \<and>
             instances s2 ! c = \<lparr>red = PInt r, green = PInt g, blue = PInt b, alpha = PInt a\<rparr>"
      by (auto simp: Color_new_hit)
  }
  then show "\<exists>c. let t = [PInt r, PInt g, PInt b, PInt a];
              s = run module_state before;
              s2 = run (snd (Color_new s t)) between
          in fst (Color_new s t) = Inr (ColorRef c) \<and>
             Color_new s2 t = (Inr (ColorRef c), s2) \<and>
             c < length (instances s2) \<and>
             instances s2 ! c = \<lparr>red = PInt r, green = PInt g, blue = PInt b, alpha = PInt a\<rparr>"
    unfolding Let_def s_def by simp
qed


section \<open>Indexing, the helpers, and malformed constructor calls\<close>

lemma Color_getitem_index:
  "Color_getitem c (KInt 0) = Inr (red c)"
  "Color_getitem c (KInt 1) = Inr (green c)"
  "Color_getitem c (KInt 2) = Inr (blue c)"
  "Color_getitem c (KInt 3) = Inr (alpha c)"
  by simp_all

lemma Color_getitem_out_of_range:
  "3 < k \<Longrightarrow> Color_getitem c (KInt k) = Inl IndexError"
  by simp

lemma negative_index_raises:
  "k < 0 \<Longrightarrow> Color_getitem c (KInt k) = Inl IndexError"
  by (simp add: Color_len_def)

text \<open>
  C7. Indexing a color with a negative integer raises \<open>IndexError\<close>: the key is
  replaced by \<open>len(self) - key\<close>, which is at least five, and that index is out of
  range. So \<open>c[-1]\<close> is not alpha and \<open>c[-4]\<close> is not red.
\<close>

theorem Color_getitem_negative:
  "Color_getitem c (KInt (- 1)) = Inl IndexError \<and>
   Color_getitem c (KInt (- 4)) = Inl IndexError"
  by (simp add: Color_len_def)

lemma Color_rgb_slots: "Color_rgb c = Inr (PTuple [red c, green c, blue c])"
  by (simp add: Color_rgb_def slice_indices_def slice_adjust_def RANGE_def upt_rec)

text \<open>
  C5. \<open>intersects_circle\<close> returns \<open>None\<close> for every pair of circles, also for two
  circles of radius one whose centers are two apart (touching): it never returns \<open>True\<close>.
\<close>

theorem intersects_circle_returns_None:
  "intersects_circle A B = None \<and>
   intersects_circle \<lparr>radius = 1 :: int, pos = (0, 0)\<rparr> \<lparr>radius = 1, pos = (2, 0)\<rparr> \<noteq> Some True"
  by (simp add: intersects_circle_def)

text \<open>
  C4. Right after the module is loaded: the unknown name \<open>gray\<close> (four letters)
  raises nothing, it yields a new instance whose slots are the four letters and enters
  it into the cache; the call \<open>Color(('white',))\<close> raises nothing, returns \<open>None\<close> and
  deletes the entry of the name \<open>white\<close>; the unknown name \<open>tan\<close> raises
  \<open>TypeError\<close> and \<open>purple\<close> raises \<open>KeyError\<close>.
\<close>

theorem Color_new_malformed:
  "fst (Color_new module_state [PStr ''gray'']) = Inr (ColorRef 5) \<and>
   CACHE (snd (Color_new module_state [PStr ''gray''])) (PStr ''gray'') = Some (ColorRef 5) \<and>
   instances (snd (Color_new module_state [PStr ''gray''])) ! 5 =
     \<lparr>red = PStr ''g'', green = PStr ''r'', blue = PStr ''a'', alpha = PStr ''y''\<rparr> \<and>
   CACHE module_state (PTuple [PStr ''white'']) = Some (ColorRef 0) \<and>
   fst (Color_new module_state [PTuple [PStr ''white'']]) = Inr NoneObj \<and>
   CACHE (snd (Color_new module_state [PTuple [PStr ''white'']])) (PTuple [PStr ''white'']) = None \<and>
   fst (Color_new module_state [PStr ''tan'']) = Inl TypeError \<and>
   fst (Color_new module_state [PStr ''purple'']) = Inl KeyError"
  by (simp add: Color_new.simps module_state_def Let_def)


lemma black_cached_module_state: "black_cached module_state"
  unfolding black_cached_def by (rule exI [of _ 1]) (simp add: module_state_def)

lemma black_cached_Color_new:
  assumes b: "black_cached s" and other: "args \<noteq> [PTuple [PStr ''black'']]"
  shows "black_cached (snd (Color_new s args))"
proof -
  from b obtain i where i: "CACHE s (PTuple [PStr ''black'']) = Some (ColorRef i)"
    "i < length (instances s)"
    "instances s ! i = \<lparr>red = PInt 0, green = PInt 0, blue = PInt 0, alpha = PInt 255\<rparr>"
    unfolding black_cached_def by blast
  show ?thesis
  proof (cases rule: Color_new_effect [of s args])
    case same
    then show ?thesis using b by simp
  next
    case (enter4 k)
    then show ?thesis using i unfolding black_cached_def
      by (intro exI [of _ i]) (auto simp: nth_append)
  next
    case (enter3 xs c)
    then show ?thesis using i unfolding black_cached_def
      by (intro exI [of _ i]) auto
  next
    case (enter34 xs)
    then show ?thesis using i unfolding black_cached_def
      by (intro exI [of _ i]) (auto simp: nth_append)
  next
    case (delete k n c)
    from delete(5,6) have "args = [k]" by (cases args) auto
    with other have "k \<noteq> PTuple [PStr ''black'']" by simp
    with delete(7) i show ?thesis unfolding black_cached_def
      by (intro exI [of _ i]) auto
  qed
qed

text \<open>
  In a state whose cache still holds the entry of the name \<open>black\<close>: an object with
  an attribute \<open>rgb\<close> (\<open>rgba\<close>) gets that attribute back unchanged, a \<open>Color\<close> instance
  its three (four) slots; every falsy plain value (\<open>None\<close>, \<open>0\<close>, the empty string, the
  empty tuple) gives \<open>(0, 0, 0)\<close> and \<open>(0, 0, 0, 255)\<close> and leaves the state as it is; a
  truthy plain value \<open>x\<close> for which \<open>Color(x)\<close> returns an instance gives the slots of
  that instance.
\<close>

lemma rgb_rgba_helpers:
  assumes "black_cached s"
  shows "(map_of tbl ''rgb'' = Some v \<longrightarrow> rgb s (Object tbl) = (Inr v, s)) \<and>
         (map_of tbl ''rgba'' = Some v \<longrightarrow> rgba s (Object tbl) = (Inr v, s)) \<and>
         rgb s (Instance c) = (Inr (PTuple [red c, green c, blue c]), s) \<and>
         rgba s (Instance c) = (Inr (PTuple [red c, green c, blue c, alpha c]), s) \<and>
         (\<not> py_truthy x \<longrightarrow>
            rgb s (Plain x) = (Inr (PTuple [PInt 0, PInt 0, PInt 0]), s) \<and>
            rgba s (Plain x) = (Inr (PTuple [PInt 0, PInt 0, PInt 0, PInt 255]), s)) \<and>
         (py_truthy x \<longrightarrow> Color_new s [x] = (Inr (ColorRef j), s') \<longrightarrow>
            rgb s (Plain x) =
              (Inr (PTuple [red (instances s' ! j), green (instances s' ! j),
                            blue (instances s' ! j)]), s') \<and>
            rgba s (Plain x) =
              (Inr (PTuple [red (instances s' ! j), green (instances s' ! j),
                            blue (instances s' ! j), alpha (instances s' ! j)]), s'))"
proof -
  from assms obtain i where i: "CACHE s (PTuple [PStr ''black'']) = Some (ColorRef i)"
    "instances s ! i = \<lparr>red = PInt 0, green = PInt 0, blue = PInt 0, alpha = PInt 255\<rparr>"
    unfolding black_cached_def by blast
  have black: "Color_new s [PStr ''black''] = (Inr (ColorRef i), s)"
    using i(1) by (rule Color_new_hit)
  have falsy: "rgb s (Plain x) = (Inr (PTuple [PInt 0, PInt 0, PInt 0]), s) \<and>
      rgba s (Plain x) = (Inr (PTuple [PInt 0, PInt 0, PInt 0, PInt 255]), s)"
    if "\<not> py_truthy x"
    using that black i(2)
    by (simp add: rgb_def rgba_def py_or_def result_rgb_def result_rgba_def
        Color_rgb_slots Color_rgba_def Color_iter_def)
  have truthy: "rgb s (Plain x) =
        (Inr (PTuple [red (instances s' ! j), green (instances s' ! j),
                      blue (instances s' ! j)]), s') \<and>
      rgba s (Plain x) =
        (Inr (PTuple [red (instances s' ! j), green (instances s' ! j),
                      blue (instances s' ! j), alpha (instances s' ! j)]), s')"
    if "py_truthy x" "Color_new s [x] = (Inr (ColorRef j), s')"
    using that
    by (simp add: rgb_def rgba_def py_or_def result_rgb_def result_rgba_def
        Color_rgb_slots Color_rgba_def Color_iter_def)
  have attr: "rgb s (Object tbl) = (Inr v, s)" if "map_of tbl ''rgb'' = Some v"
    using that by (simp add: rgb_def)
  have attr': "rgba s (Object tbl) = (Inr v, s)" if "map_of tbl ''rgba'' = Some v"
    using that by (simp add: rgba_def)
  have inst: "rgb s (Instance c) = (Inr (PTuple [red c, green c, blue c]), s)"
    "rgba s (Instance c) = (Inr (PTuple [red c, green c, blue c, alpha c]), s)"
    by (simp_all add: rgb_def rgba_def Color_rgb_slots Color_rgba_def Color_iter_def)
  from falsy truthy attr attr' inst show ?thesis by blast
qed

text \<open>The state after loading is such a state; four calls there.\<close>

lemma rgb_rgba_helpers_example:
  "black_cached module_state \<and>
   rgb module_state (Object [(''rgb'', PTuple [PInt 1, PInt 2, PInt 3])]) =
     (Inr (PTuple [PInt 1, PInt 2, PInt 3]), module_state) \<and>
   rgb module_state (Plain PNone) = (Inr (PTuple [PInt 0, PInt 0, PInt 0]), module_state) \<and>
   rgba module_state (Plain (PInt 0)) =
     (Inr (PTuple [PInt 0, PInt 0, PInt 0, PInt 255]), module_state) \<and>
   rgba module_state (Plain (PStr ''white'')) =
     (Inr (PTuple [PInt 255, PInt 255, PInt 255, PInt 255]), module_state)"
proof -
  have w: "Color_new module_state [PStr ''white''] = (Inr (ColorRef 0), module_state)"
    by (rule Color_new_hit) (simp add: module_state_def)
  have i0: "instances module_state ! 0 =
      \<lparr>red = PInt 255, green = PInt 255, blue = PInt 255, alpha = PInt 255\<rparr>"
    by (simp add: module_state_def)
  note h = rgb_rgba_helpers [OF black_cached_module_state]
  from h [of "[(''rgb'', PTuple [PInt 1, PInt 2, PInt 3])]" "PTuple [PInt 1, PInt 2, PInt 3]"]
  have a: "rgb module_state (Object [(''rgb'', PTuple [PInt 1, PInt 2, PInt 3])]) =
     (Inr (PTuple [PInt 1, PInt 2, PInt 3]), module_state)" by simp
  from h [of _ _ _ PNone]
  have b: "rgb module_state (Plain PNone) = (Inr (PTuple [PInt 0, PInt 0, PInt 0]), module_state)"
    by simp
  from h [of _ _ _ "PInt 0"]
  have c: "rgba module_state (Plain (PInt 0)) =
     (Inr (PTuple [PInt 0, PInt 0, PInt 0, PInt 255]), module_state)" by simp
  from h [of _ _ _ "PStr ''white''" 0 module_state] w i0
  have d: "rgba module_state (Plain (PStr ''white'')) =
     (Inr (PTuple [PInt 255, PInt 255, PInt 255, PInt 255]), module_state)" by simp
  from black_cached_module_state a b c d show ?thesis by blast
qed

text \<open>
  C10. The helpers are not total on falsy values. Right after the module is loaded
  \<open>rgb(None)\<close> is \<open>(0, 0, 0)\<close>; but the call \<open>Color(('black',))\<close> returns \<open>None\<close> and
  deletes the entry of the name \<open>black\<close>, and from then on \<open>rgb(None)\<close> and
  \<open>rgba(None)\<close> raise \<open>KeyError\<close>.
\<close>

theorem rgb_after_black_deleted:
  "fst (Color_new module_state [PTuple [PStr ''black'']]) = Inr NoneObj \<and>
   fst (rgb (snd (Color_new module_state [PTuple [PStr ''black'']])) (Plain PNone)) =
     Inl KeyError \<and>
   fst (rgba (snd (Color_new module_state [PTuple [PStr ''black'']])) (Plain PNone)) =
     Inl KeyError \<and>
   fst (rgb module_state (Plain PNone)) = Inr (PTuple [PInt 0, PInt 0, PInt 0])"
  by (simp add: Color_new.simps module_state_def rgb_def rgba_def py_or_def Let_def
      result_rgb_def Color_rgb_slots)


lemma keys_shapedD:
  "keys_shaped s \<Longrightarrow> CACHE s k = Some v \<Longrightarrow>
   (\<exists>xs. k = PTuple xs \<and> (length xs = 1 \<or> length xs = 3 \<or> length xs = 4)) \<or>
   (\<exists>n. k = PStr n \<and> length n = 4)"
  unfolding keys_shaped_def by blast

lemma keys_shaped_module_state: "keys_shaped module_state"
  unfolding keys_shaped_def by (auto simp: module_state_def split: if_splits)

lemma len4_shape:
  "py_len k = Inr 4 \<Longrightarrow>
   (\<exists>xs. k = PTuple xs \<and> (length xs = 1 \<or> length xs = 3 \<or> length xs = 4)) \<or>
   (\<exists>n. k = PStr n \<and> length n = 4)"
  by (cases k) auto

lemma keys_shaped_Color_new:
  assumes inv: "keys_shaped s"
  shows "keys_shaped (snd (Color_new s args))"
proof (cases rule: Color_new_effect [of s args])
  case same
  then show ?thesis using inv by simp
next
  case (enter4 k)
  show ?thesis unfolding keys_shaped_def enter4(3)
    using keys_shapedD [OF inv] len4_shape [OF enter4(1)] by (auto split: if_splits)
next
  case (enter3 xs c)
  show ?thesis unfolding keys_shaped_def enter3(4)
    using keys_shapedD [OF inv] enter3(1) by (auto split: if_splits)
next
  case (enter34 xs)
  show ?thesis unfolding keys_shaped_def enter34(4)
    using keys_shapedD [OF inv] enter34(1) by (auto split: if_splits)
next
  case (delete k n c)
  show ?thesis unfolding keys_shaped_def delete(7)
    using keys_shapedD [OF inv] by (auto split: if_splits)
qed

lemma keys_shaped_run: "keys_shaped s \<Longrightarrow> keys_shaped (run s calls)"
  unfolding run_def by (induction calls arbitrary: s) (simp_all add: keys_shaped_Color_new)

text \<open>
  In every state reached from the load state through the constructor, a call with
  zero, two, or more than four arguments raises \<open>KeyError\<close> (from the \<open>del\<close> of a key
  that is not there) and leaves the state as it is.
\<close>

lemma Color_new_bad_arity:
  "length args \<noteq> 1 \<and> length args \<noteq> 3 \<and> length args \<noteq> 4 \<longrightarrow>
   Color_new (run module_state calls) args = (Inl KeyError, run module_state calls)"
proof
  assume a: "length args \<noteq> 1 \<and> length args \<noteq> 3 \<and> length args \<noteq> 4"
  let ?s = "run module_state calls"
  have inv: "keys_shaped ?s" by (rule keys_shaped_run [OF keys_shaped_module_state])
  have miss: "CACHE ?s (PTuple args) = None"
  proof (rule ccontr)
    assume "CACHE ?s (PTuple args) \<noteq> None"
    then obtain v where "CACHE ?s (PTuple args) = Some v" by blast
    from keys_shapedD [OF inv this] a show False by auto
  qed
  have u: "PTuple args = (if length args = 1 then hd args else PTuple args)" using a by simp
  have l: "py_len (PTuple args) = Inr (length args)" by simp
  from a Color_new_del_miss [OF miss u l _ _ miss]
  show "Color_new ?s args = (Inl KeyError, ?s)" by blast
qed

lemma Color_new_bad_arity_example:
  "Color_new (run module_state [[PStr ''gray'']]) [PInt 1, PInt 2] =
     (Inl KeyError, run module_state [[PStr ''gray'']]) \<and>
   Color_new module_state [] = (Inl KeyError, module_state)"
  using Color_new_bad_arity [of "[PInt 1, PInt 2]" "[[PStr ''gray'']]"]
    Color_new_bad_arity [of "[]" "[]"]
  by (simp add: run_def)

text \<open>Right after loading, a name and its components give the same instance.\<close>

lemma named_colors_interned:
  "Color_new module_state [PStr ''white''] = (Inr (ColorRef 0), module_state) \<and>
   Color_new module_state [PInt 255, PInt 255, PInt 255, PInt 255] =
     (Inr (ColorRef 0), module_state) \<and>
   Color_new module_state [PInt 255, PInt 255, PInt 255] = (Inr (ColorRef 0), module_state) \<and>
   Color_new module_state [PStr ''black''] = (Inr (ColorRef 1), module_state) \<and>
   Color_new module_state [PStr ''red''] = (Inr (ColorRef 2), module_state) \<and>
   Color_new module_state [PStr ''green''] = (Inr (ColorRef 3), module_state) \<and>
   Color_new module_state [PStr ''blue''] = (Inr (ColorRef 4), module_state)"
  by (simp add: Color_new_hit module_state_def)

lemma slice_adjust_pos: "0 < st \<Longrightarrow> 0 \<le> n \<Longrightarrow> 0 \<le> slice_adjust n st v \<and> slice_adjust n st v \<le> n"
  by (simp add: slice_adjust_def)

lemma slice_adjust_neg: "st < 0 \<Longrightarrow> 0 \<le> n \<Longrightarrow> slice_adjust n st v \<le> n - 1"
  by (simp add: slice_adjust_def)

lemma div_mult_le_int: "0 < (st::int) \<Longrightarrow> j \<le> a div st \<Longrightarrow> j * st \<le> a"
proof -
  assume st: "0 < st" and j: "j \<le> a div st"
  from j st have "j * st \<le> (a div st) * st" by (simp add: mult_right_mono)
  moreover have "a div st * st + a mod st = a" by simp
  moreover have "0 \<le> a mod st" using st by simp
  ultimately show ?thesis by linarith
qed

lemma slice_indices_Inr:
  assumes "slice_indices len start stop step = Inr ps"
  shows "\<exists>st lo hi. st \<noteq> 0 \<and> (0 < st \<longrightarrow> 0 \<le> lo \<and> hi \<le> int len) \<and>
           (st < 0 \<longrightarrow> lo \<le> int len - 1 \<and> - 1 \<le> hi) \<and>
           ps = map (\<lambda>j. nat (lo + int j * st))
                  [0..<nat (if st < 0
                            then (if hi < lo then (lo - hi - 1) div (- st) + 1 else 0)
                            else (if lo < hi then (hi - lo - 1) div st + 1 else 0))]"
proof -
  let ?n = "int len"
  let ?st = "case step of None \<Rightarrow> 1 | Some k \<Rightarrow> k"
  let ?lo = "case start of None \<Rightarrow> (if ?st < 0 then ?n - 1 else 0)
                   | Some v \<Rightarrow> slice_adjust ?n ?st v"
  let ?hi = "case stop of None \<Rightarrow> (if ?st < 0 then - 1 else ?n)
                   | Some v \<Rightarrow> slice_adjust ?n ?st v"
  from assms have st0: "?st \<noteq> 0"
    by (auto simp: slice_indices_def Let_def split: if_splits)
  have pos: "0 \<le> ?lo \<and> ?hi \<le> ?n" if "0 < ?st"
    using that slice_adjust_pos [of ?st ?n] by (auto split: option.splits)
  have neg: "?lo \<le> ?n - 1 \<and> - 1 \<le> ?hi" if "?st < 0"
    using that by (auto simp: slice_adjust_def split: option.splits)
  from assms st0 have "ps = map (\<lambda>j. nat (?lo + int j * ?st))
                  [0..<nat (if ?st < 0
                            then (if ?hi < ?lo then (?lo - ?hi - 1) div (- ?st) + 1 else 0)
                            else (if ?lo < ?hi then (?hi - ?lo - 1) div ?st + 1 else 0))]"
    by (simp add: slice_indices_def Let_def)
  with st0 pos neg show ?thesis by blast
qed

lemma slice_indices_bound:
  assumes "slice_indices len start stop step = Inr ps" and "p \<in> set ps"
  shows "p < len"
proof -
  from slice_indices_Inr [OF assms(1)] obtain st lo hi where
    st0: "st \<noteq> 0" and pos: "0 < st \<Longrightarrow> 0 \<le> lo \<and> hi \<le> int len"
    and neg: "st < 0 \<Longrightarrow> lo \<le> int len - 1 \<and> - 1 \<le> hi"
    and ps: "ps = map (\<lambda>j. nat (lo + int j * st))
                  [0..<nat (if st < 0
                            then (if hi < lo then (lo - hi - 1) div (- st) + 1 else 0)
                            else (if lo < hi then (hi - lo - 1) div st + 1 else 0))]"
    by blast
  define count where "count = (if st < 0
                      then (if hi < lo then (lo - hi - 1) div (- st) + 1 else 0)
                      else (if lo < hi then (hi - lo - 1) div st + 1 else 0))"
  from ps assms(2) obtain j where j: "j < nat count" "p = nat (lo + int j * st)"
    unfolding count_def by auto
  from j(1) have c0: "0 < count" by simp
  show ?thesis
  proof (cases "st < 0")
    case True
    from c0 have "hi < lo" using True by (simp add: count_def split: if_splits)
    from neg [OF True] have lo_le: "lo \<le> int len - 1" and hi_ge: "- 1 \<le> hi" by simp_all
    have "int j * st \<le> 0" using True by (simp add: mult_nonneg_nonpos)
    with lo_le have le: "lo + int j * st \<le> int len - 1" by simp
    from hi_ge \<open>hi < lo\<close> lo_le have "1 \<le> int len" by simp
    with le have "nat (lo + int j * st) < len" by linarith
    then show ?thesis using j(2) by simp
  next
    case False
    with st0 have p: "0 < st" by simp
    from c0 have lt: "lo < hi" using False by (simp add: count_def split: if_splits)
    then have count: "count = (hi - lo - 1) div st + 1" using False by (simp add: count_def)
    from pos [OF p] have lo_ge: "0 \<le> lo" and hi_le: "hi \<le> int len" by simp_all
    from j(1) count have "int j \<le> (hi - lo - 1) div st" by simp
    from div_mult_le_int [OF p this] have "int j * st \<le> hi - lo - 1" .
    with hi_le have "lo + int j * st < int len" by simp
    moreover have "0 \<le> int j * st" using p by simp
    ultimately have "nat (lo + int j * st) < len" using lo_ge by linarith
    then show ?thesis using j(2) by simp
  qed
qed

lemma collect_Inr: "collect (map (\<lambda>x. Inr (f x)) xs) = Inr (map f xs)"
  by (induction xs) simp_all

lemma Color_getitem_RANGE:
  "p < 4 \<Longrightarrow> Color_getitem c (KInt (RANGE ! p)) = Inr (Color_iter c ! p)"
proof -
  assume "p < 4"
  then consider "p = 0" | "p = 1" | "p = 2" | "p = 3" by linarith
  then show ?thesis by cases (simp_all add: RANGE_def Color_iter_def)
qed

text \<open>
  A slice key gives the tuple of the slots at the positions Python selects from a
  sequence of length four.
\<close>

lemma Color_getitem_slice:
  "Color_getitem c (KSlice start stop step) =
     (case slice_indices 4 start stop step of
        Inl e \<Rightarrow> Inl e
      | Inr ps \<Rightarrow> Inr (PTuple (map (\<lambda>p. Color_iter c ! p) ps)))"
proof -
  have len: "length RANGE = 4" by (simp add: RANGE_def)
  show ?thesis
  proof (cases "slice_indices 4 start stop step")
  case (Inl e)
  then show ?thesis by (simp add: len)
next
  case (Inr ps)
  have eq: "Color_getitem c (KInt (RANGE ! p)) = Inr (Color_iter c ! p)" if "p \<in> set ps" for p
    using slice_indices_bound [OF Inr that] by (rule Color_getitem_RANGE)
  have "map (\<lambda>p. Color_getitem c (KInt (RANGE ! p))) ps = map (\<lambda>p. Inr (Color_iter c ! p)) ps"
    by (rule map_cong [OF refl]) (rule eq)
  then have "(case slice_indices (length RANGE) start stop step of
        Inl e \<Rightarrow> Inl e
      | Inr ps \<Rightarrow>
          (case collect (map (\<lambda>p. Color_getitem c (KInt (RANGE ! p))) ps) of
             Inl e \<Rightarrow> Inl e
           | Inr vs \<Rightarrow> Inr (PTuple vs))) = Inr (PTuple (map (\<lambda>p. Color_iter c ! p) ps))"
    by (simp only: len Inr collect_Inr sum.case)
  then show ?thesis by (simp only: Color_getitem.simps(2) Inr sum.case)
  qed
qed

lemma slice_examples:
  "slice_indices 4 None (Some 3) None = Inr [0, 1, 2]"
  "slice_indices 4 None None (Some (- 1)) = Inr [3, 2, 1, 0]"
  "slice_indices 4 (Some (- 2)) None None = Inr [2, 3]"
  "slice_indices 4 (Some 1) (Some 10) (Some 2) = Inr [1, 3]"
  by (simp_all add: slice_indices_def slice_adjust_def upt_rec)

section \<open>The texture cache\<close>

lemma get_texture_hit:
  "map_of (lru st) c = Some t \<Longrightarrow>
   get_texture decode st c = (Inr t, st\<lparr>lru := lru_touch c t (lru st)\<rparr>)"
  by (subst get_texture.simps) simp

lemma get_texture_base_miss:
  "map_of (lru st) c = None \<Longrightarrow> theta_of c = 0 \<Longrightarrow> scale_of c = 1 \<Longrightarrow>
   get_texture decode st c =
     (case decode (path_of c) of
        None \<Rightarrow> (Inl IOError, st)
      | Some d \<Rightarrow>
          (Inr (length (textures st)),
           st\<lparr>textures := textures st @ [\<lparr>pil = d, path = path_of c\<rparr>],
              lru := lru_store c (length (textures st)) (lru st)\<rparr>))"
  by (subst get_texture.simps) (simp add: Texture_new_def split: option.splits)

lemma get_texture_variant_miss:
  "map_of (lru st) c = None \<Longrightarrow> \<not> (theta_of c = 0 \<and> scale_of c = 1) \<Longrightarrow>
   get_texture decode st c =
     (case get_texture decode st (Call1 (path_of c)) of
        (Inl e, st') \<Rightarrow> (Inl e, st')
      | (Inr base, st') \<Rightarrow> (Inl AttributeError, st'))"
  by (subst get_texture.simps)
     (auto simp: Texture_rotate_def split: prod.splits sum.splits)

lemma lru_touch_length:
  "map_of c k = Some v \<Longrightarrow> length (lru_touch k v c) \<le> length c"
proof -
  assume "map_of c k = Some v"
  then have "(k, v) \<in> set c" by (rule map_of_SomeD)
  then have "length (filter (\<lambda>(k', v'). k' \<noteq> k) c) < length c"
    by (intro length_filter_less [of "(k, v)"]) auto
  then show ?thesis by (simp add: lru_touch_def)
qed

lemma lru_store_length:
  "length c \<le> maxsize \<Longrightarrow> length (lru_store k v c) \<le> maxsize"
  by (auto simp: lru_store_def maxsize_def)

lemma lru_touch_lookup: "map_of (lru_touch k v c) k = Some v"
  by (simp add: lru_touch_def)

lemma lru_store_lookup: "map_of c k = None \<Longrightarrow> map_of (lru_store k v c) k = Some v"
  by (simp add: lru_store_def)

lemma get_texture_base_bound:
  assumes "theta_of c = 0" "scale_of c = 1" "length (lru st) \<le> maxsize"
  shows "length (lru (snd (get_texture decode st c))) \<le> maxsize"
proof (cases "map_of (lru st) c")
  case None
  then show ?thesis using assms
    by (simp add: get_texture_base_miss lru_store_length split: option.splits)
next
  case (Some t)
  then show ?thesis using assms lru_touch_length [OF Some]
    by (simp add: get_texture_hit)
qed

lemma get_texture_variant_state:
  assumes "map_of (lru st) c = None" "\<not> (theta_of c = 0 \<and> scale_of c = 1)"
  shows "snd (get_texture decode st c) = snd (get_texture decode st (Call1 (path_of c)))"
  using assms by (simp add: get_texture_variant_miss split: prod.splits sum.splits)

lemma get_texture_bound:
  assumes "length (lru st) \<le> maxsize"
  shows "length (lru (snd (get_texture decode st c))) \<le> maxsize"
proof (cases "map_of (lru st) c")
  case (Some t)
  then show ?thesis using assms lru_touch_length [OF Some]
    by (simp add: get_texture_hit)
next
  case None
  show ?thesis
  proof (cases "theta_of c = 0 \<and> scale_of c = 1")
    case True
    then show ?thesis using assms by (simp add: get_texture_base_bound)
  next
    case False
    have "theta_of (Call1 (path_of c) :: 'a tex_args) = 0"
      "scale_of (Call1 (path_of c) :: 'a tex_args) = 1" by simp_all
    from get_texture_base_bound [OF this assms] get_texture_variant_state [OF None False]
    show ?thesis by simp
  qed
qed

lemma get_texture_repeat:
  assumes "fst (get_texture decode st c) = Inr t"
  shows "map_of (lru (snd (get_texture decode st c))) c = Some t"
proof (cases "map_of (lru st) c")
  case (Some t')
  then show ?thesis using assms by (simp add: get_texture_hit lru_touch_lookup)
next
  case None
  show ?thesis
  proof (cases "theta_of c = 0 \<and> scale_of c = 1")
    case True
    then show ?thesis using assms None
      by (auto simp: get_texture_base_miss lru_store_lookup split: option.splits)
  next
    case False
    then show ?thesis using assms None
      by (auto simp: get_texture_variant_miss split: prod.splits sum.splits)
  qed
qed

text \<open>The keys of the cache after a call that returned, most recent first.\<close>

lemma map_fst_filter_key:
  "map fst (filter (\<lambda>(k, v). k \<noteq> c) l) = filter (\<lambda>k. k \<noteq> c) (map fst l)"
  by (induction l) auto

lemma filter_absent: "c \<notin> set ks \<Longrightarrow> filter (\<lambda>k. k \<noteq> c) ks = ks"
  by (induction ks) auto

lemma get_texture_keys:
  assumes bound: "length (lru st) \<le> maxsize"
    and ok: "fst (get_texture decode st c) = Inr t"
    and kind: "map_of (lru st) c \<noteq> None \<or> (theta_of c = 0 \<and> scale_of c = 1)"
  shows "map fst (lru (snd (get_texture decode st c))) =
           take maxsize (c # filter (\<lambda>k. k \<noteq> c) (map fst (lru st)))"
proof (cases "map_of (lru st) c")
  case (Some t')
  from lru_touch_length [OF Some] bound
  have "length (c # filter (\<lambda>k. k \<noteq> c) (map fst (lru st))) \<le> maxsize"
    by (simp add: lru_touch_def map_fst_filter_key [symmetric])
  then have "take maxsize (c # filter (\<lambda>k. k \<noteq> c) (map fst (lru st))) =
      c # filter (\<lambda>k. k \<noteq> c) (map fst (lru st))" by (rule take_all)
  then show ?thesis using Some
    by (simp add: get_texture_hit lru_touch_def map_fst_filter_key)
next
  case None
  with kind have base: "theta_of c = 0" "scale_of c = 1" by simp_all
  from ok None base obtain d where d: "decode (path_of c) = Some d"
    by (auto simp: get_texture_base_miss split: option.splits)
  from None have "c \<notin> set (map fst (lru st))" by (simp add: map_of_eq_None_iff)
  then have f: "filter (\<lambda>k. k \<noteq> c) (map fst (lru st)) = map fst (lru st)"
    by (rule filter_absent)
  show ?thesis
  proof (cases "maxsize \<le> length (lru st)")
    case True
    with bound have full: "length (lru st) = maxsize" by simp
    have "butlast (map fst (lru st)) = take (maxsize - 1) (map fst (lru st))"
      using full by (simp add: butlast_conv_take)
    then show ?thesis using None base d True f
      by (simp add: get_texture_base_miss lru_store_def map_butlast maxsize_def)
  next
    case False
    then show ?thesis using None base d f
      by (simp add: get_texture_base_miss lru_store_def)
  qed
qed

lemma take_filter_take:
  "distinct xs \<Longrightarrow>
   take n (filter (\<lambda>k. k \<noteq> c) (take (Suc n) xs)) = take n (filter (\<lambda>k. k \<noteq> c) xs)"
proof (induction xs arbitrary: n)
  case Nil
  then show ?case by simp
next
  case (Cons x xs)
  show ?case
  proof (cases "x = c")
    case True
    with Cons.prems have "c \<notin> set xs" by simp
    then have "c \<notin> set (take n xs)" by (auto dest: in_set_takeD)
    with \<open>c \<notin> set xs\<close> True show ?thesis by (simp add: filter_absent)
  next
    case False
    show ?thesis
    proof (cases n)
      case 0
      then show ?thesis by simp
    next
      case (Suc m)
      from Cons.prems have "distinct xs" by simp
      from Cons.IH [OF this, of m] False Suc show ?thesis by simp
    qed
  qed
qed

lemma take_cons_filter_take:
  assumes "distinct xs"
  shows "take n (c # filter (\<lambda>k. k \<noteq> c) (take n xs)) = take n (c # filter (\<lambda>k. k \<noteq> c) xs)"
proof (cases n)
  case 0
  then show ?thesis by simp
next
  case (Suc m)
  have "take m (filter (\<lambda>k. k \<noteq> c) (take (Suc m) xs)) = take m (filter (\<lambda>k. k \<noteq> c) xs)"
    using assms by (rule take_filter_take)
  then show ?thesis using Suc by simp
qed

lemma remdups_snoc: "remdups (cs @ [c]) = filter (\<lambda>k. k \<noteq> c) (remdups cs) @ [c]"
  by (induction cs) auto

lemma rev_remdups_snoc:
  "rev (remdups (cs @ [c])) = c # filter (\<lambda>k. k \<noteq> c) (rev (remdups cs))"
  by (simp add: remdups_snoc rev_filter)

lemma get_textures_snoc:
  "get_textures decode st (cs @ [c]) = snd (get_texture decode (get_textures decode st cs) c)"
  by (simp add: get_textures_def)

lemma get_textures_bound:
  "length (lru st) \<le> maxsize \<Longrightarrow> length (lru (get_textures decode st cs)) \<le> maxsize"
  by (induction cs rule: rev_induct) (simp_all add: get_textures_def get_texture_bound)

lemma base_call_returns:
  assumes "theta_of c = 0" "scale_of c = 1" "decode (path_of c) \<noteq> None"
  shows "\<exists>t. fst (get_texture decode st c) = Inr t"
proof (cases "map_of (lru st) c")
  case None
  then show ?thesis using assms by (auto simp: get_texture_base_miss)
next
  case (Some t)
  then show ?thesis by (simp add: get_texture_hit)
qed

lemma get_textures_recent:
  assumes "\<forall>c\<in>set cs. theta_of c = 0 \<and> scale_of c = 1 \<and> decode (path_of c) \<noteq> None"
  shows "map fst (lru (get_textures decode \<lparr>lru = [], textures = []\<rparr> cs)) =
           take maxsize (rev (remdups cs))"
  using assms
proof (induction cs rule: rev_induct)
  case Nil
  then show ?case by (simp add: get_textures_def)
next
  case (snoc c cs)
  let ?st = "get_textures decode \<lparr>lru = [], textures = []\<rparr> cs"
  have bound: "length (lru ?st) \<le> maxsize" by (rule get_textures_bound) simp
  from snoc.prems have c: "theta_of c = 0" "scale_of c = 1" "decode (path_of c) \<noteq> None"
    by simp_all
  from c have "\<exists>t. fst (get_texture decode ?st c) = Inr t" by (rule base_call_returns)
  then obtain t where t: "fst (get_texture decode ?st c) = Inr t" by blast
  from snoc have IH: "map fst (lru ?st) = take maxsize (rev (remdups cs))" by simp
  have "map fst (lru (snd (get_texture decode ?st c))) =
      take maxsize (c # filter (\<lambda>k. k \<noteq> c) (map fst (lru ?st)))"
    using bound t c by (intro get_texture_keys) simp_all
  also have "\<dots> = take maxsize (c # filter (\<lambda>k. k \<noteq> c) (rev (remdups cs)))"
    unfolding IH by (rule take_cons_filter_take) simp
  also have "\<dots> = take maxsize (rev (remdups (cs @ [c])))"
    by (simp only: rev_remdups_snoc)
  finally show ?case by (simp only: get_textures_snoc)
qed

text \<open>An uncached call with a rotation or a scale: the base call comes first.\<close>

lemma get_texture_variant_base:
  assumes miss: "map_of (lru st) c = None" and var: "\<not> (theta_of c = 0 \<and> scale_of c = 1)"
  shows "(get_texture decode st (Call1 (path_of c)) = (Inl e, st') \<longrightarrow>
            get_texture decode st c = (Inl e, st')) \<and>
         (fst (get_texture decode st (Call1 (path_of c))) = Inr t \<longrightarrow>
            map_of (lru (snd (get_texture decode st c))) (Call1 (path_of c)) = Some t) \<and>
         (map_of (lru st) (Call1 (path_of c)) \<noteq> None \<longrightarrow>
            get_texture decode' st c = get_texture decode st c)"
proof (intro conjI impI)
  assume "get_texture decode st (Call1 (path_of c)) = (Inl e, st')"
  then show "get_texture decode st c = (Inl e, st')"
    by (simp add: get_texture_variant_miss [OF miss var])
next
  assume "fst (get_texture decode st (Call1 (path_of c))) = Inr t"
  from get_texture_repeat [OF this] get_texture_variant_state [OF miss var, of decode]
  show "map_of (lru (snd (get_texture decode st c))) (Call1 (path_of c)) = Some t"
    by simp
next
  assume "map_of (lru st) (Call1 (path_of c)) \<noteq> None"
  then obtain b where "map_of (lru st) (Call1 (path_of c)) = Some b" by blast
  then show "get_texture decode' st c = get_texture decode st c"
    by (simp add: get_texture_variant_miss [OF miss var] get_texture_hit)
qed

lemma Image_init_lookup:
  "snd (Image_init depth decode texture_shape asvector s st (APath p) position reference) =
   snd (get_texture decode st (Call1 p))"
  by (simp add: Image_init_def split: prod.splits sum.splits)

text \<open>
  C6, as amended. The cache is keyed by the arguments as passed and never holds more
  than 512 entries, in the order of their last use. A call whose arguments are cached
  returns the cached texture itself, allocates nothing and makes its entry the first.
  An uncached base call that decodes enters the new texture as the first entry, and
  when the cache is full the last entry is dropped. So after such a call the keys are
  the new key followed by the others, cut at 512, and a call repeated right after it
  returned gives the same texture; and after any base calls from the empty cache whose
  paths decode, the keys are the 512 most recently used distinct ones, most recent
  first. An uncached call with \<open>theta \<noteq> 0\<close> or \<open>scale \<noteq> 1\<close> first makes the
  one-argument call for its path: a failure of that call is its failure, the base
  texture is cached under the one-argument key afterwards, and when that key was
  cached already the decoder plays no part. \<open>Image.__init__\<close> on a path leaves the
  cache as the one-argument call leaves it.
\<close>

theorem get_texture_lru:
  assumes "length (lru st) \<le> maxsize"
  shows "length (lru (snd (get_texture decode st c))) \<le> maxsize \<and>
         (map_of (lru st) c = Some t \<longrightarrow>
            get_texture decode st c =
              (Inr t, st\<lparr>lru := (c, t) # filter (\<lambda>(k, v). k \<noteq> c) (lru st)\<rparr>)) \<and>
         (map_of (lru st) c = None \<and> theta_of c = 0 \<and> scale_of c = 1 \<and>
          decode (path_of c) = Some d \<longrightarrow>
            get_texture decode st c =
              (Inr (length (textures st)),
               st\<lparr>textures := textures st @ [\<lparr>pil = d, path = path_of c\<rparr>],
                  lru := (c, length (textures st)) #
                         (if maxsize \<le> length (lru st) then butlast (lru st) else lru st)\<rparr>)) \<and>
         ((map_of (lru st) c \<noteq> None \<or> (theta_of c = 0 \<and> scale_of c = 1)) \<and>
          fst (get_texture decode st c) = Inr t \<longrightarrow>
            map fst (lru (snd (get_texture decode st c))) =
              take maxsize (c # filter (\<lambda>k. k \<noteq> c) (map fst (lru st))) \<and>
            fst (get_texture decode (snd (get_texture decode st c)) c) = Inr t) \<and>
         ((\<forall>b\<in>set cs. theta_of b = 0 \<and> scale_of b = 1 \<and> decode (path_of b) \<noteq> None) \<longrightarrow>
            map fst (lru (get_textures decode (st\<lparr>lru := [], textures := []\<rparr>) cs)) =
              take maxsize (rev (remdups cs))) \<and>
         (map_of (lru st) c = None \<and> \<not> (theta_of c = 0 \<and> scale_of c = 1) \<longrightarrow>
            (get_texture decode st (Call1 (path_of c)) = (Inl e, st') \<longrightarrow>
               get_texture decode st c = (Inl e, st')) \<and>
            (fst (get_texture decode st (Call1 (path_of c))) = Inr t \<longrightarrow>
               map_of (lru (snd (get_texture decode st c))) (Call1 (path_of c)) = Some t) \<and>
            (map_of (lru st) (Call1 (path_of c)) \<noteq> None \<longrightarrow>
               get_texture decode' st c = get_texture decode st c)) \<and>
         snd (Image_init depth decode texture_shape asvector s st (APath p) position reference) =
           snd (get_texture decode st (Call1 p))"
proof (intro conjI impI)
  show "length (lru (snd (get_texture decode st c))) \<le> maxsize"
    using assms by (rule get_texture_bound)
next
  assume "map_of (lru st) c = Some t"
  then show "get_texture decode st c =
      (Inr t, st\<lparr>lru := (c, t) # filter (\<lambda>(k, v). k \<noteq> c) (lru st)\<rparr>)"
    by (simp add: get_texture_hit lru_touch_def)
next
  assume "map_of (lru st) c = None \<and> theta_of c = 0 \<and> scale_of c = 1 \<and>
          decode (path_of c) = Some d"
  then show "get_texture decode st c =
      (Inr (length (textures st)),
       st\<lparr>textures := textures st @ [\<lparr>pil = d, path = path_of c\<rparr>],
          lru := (c, length (textures st)) #
                 (if maxsize \<le> length (lru st) then butlast (lru st) else lru st)\<rparr>)"
    by (simp add: get_texture_base_miss lru_store_def)
next
  assume a: "(map_of (lru st) c \<noteq> None \<or> (theta_of c = 0 \<and> scale_of c = 1)) \<and>
          fst (get_texture decode st c) = Inr t"
  then show "map fst (lru (snd (get_texture decode st c))) =
      take maxsize (c # filter (\<lambda>k. k \<noteq> c) (map fst (lru st)))"
    using assms by (intro get_texture_keys) simp_all
  from a have "fst (get_texture decode st c) = Inr t" by simp
  from get_texture_repeat [OF this]
  show "fst (get_texture decode (snd (get_texture decode st c)) c) = Inr t"
    by (simp add: get_texture_hit)
next
  assume "\<forall>b\<in>set cs. theta_of b = 0 \<and> scale_of b = 1 \<and> decode (path_of b) \<noteq> None"
  from get_textures_recent [OF this]
  show "map fst (lru (get_textures decode (st\<lparr>lru := [], textures := []\<rparr>) cs)) =
      take maxsize (rev (remdups cs))"
    by (cases st) simp
next
  assume m: "map_of (lru st) c = None \<and> \<not> (theta_of c = 0 \<and> scale_of c = 1)"
  then have miss: "map_of (lru st) c = None" and var: "\<not> (theta_of c = 0 \<and> scale_of c = 1)"
    by simp_all
  note v = get_texture_variant_base [OF miss var]
  show "get_texture decode st c = (Inl e, st')"
    if "get_texture decode st (Call1 (path_of c)) = (Inl e, st')"
    using v that by blast
  show "map_of (lru (snd (get_texture decode st c))) (Call1 (path_of c)) = Some t"
    if "fst (get_texture decode st (Call1 (path_of c))) = Inr t"
    using v that by blast
  show "get_texture decode' st c = get_texture decode st c"
    if "map_of (lru st) (Call1 (path_of c)) \<noteq> None"
    using v that by blast
next
  show "snd (Image_init depth decode texture_shape asvector s st (APath p) position reference) =
      snd (get_texture decode st (Call1 p))"
    by (rule Image_init_lookup)
qed

lemma get_texture_first_call:
  "get_texture Some empty_cache (Call1 ''a.png'') =
     (Inr 0, \<lparr>lru = [(Call1 ''a.png'', 0)], textures = [\<lparr>pil = ''a.png'', path = ''a.png''\<rparr>]\<rparr>)"
  by (simp add: get_texture_base_miss empty_cache_def lru_store_def maxsize_def)

text \<open>
  From the empty cache, with the paths \<open>a.png\<close> and \<open>b.png\<close>: the first call, the same
  call again, three base calls in a row, and an uncached call with a rotation.
\<close>

theorem get_texture_lru_witness:
  "length (lru empty_cache) \<le> maxsize \<and>
   get_texture Some empty_cache (Call1 ''a.png'') =
     (Inr 0, \<lparr>lru = [(Call1 ''a.png'', 0)], textures = [\<lparr>pil = ''a.png'', path = ''a.png''\<rparr>]\<rparr>) \<and>
   fst (get_texture Some (snd (get_texture Some empty_cache (Call1 ''a.png''))) (Call1 ''a.png'')) =
     Inr 0 \<and>
   map fst (lru (get_textures Some empty_cache
                   [Call1 ''a.png'', Call1 ''b.png'', Call1 ''a.png''])) =
     [Call1 ''a.png'', Call1 ''b.png''] \<and>
   map_of (lru (snd (get_texture Some empty_cache (Call2 ''a.png'' 90)))) (Call1 ''a.png'') =
     Some 0"
proof -
  let ?a = "Call1 ''a.png'' :: int tex_args"
  let ?v = "Call2 ''a.png'' 90 :: int tex_args"
  let ?cs = "[Call1 ''a.png'', Call1 ''b.png'', Call1 ''a.png''] :: int tex_args list"
  have b: "length (lru empty_cache) \<le> maxsize" by (simp add: empty_cache_def)
  note store = get_texture_lru [OF b, where decode = Some and c = "Call1 ''a.png''"
      and d = "''a.png''", THEN conjunct2, THEN conjunct2, THEN conjunct1, THEN mp]
  note again = get_texture_lru [OF b, where decode = Some and c = "Call1 ''a.png''" and t = 0,
      THEN conjunct2, THEN conjunct2, THEN conjunct2, THEN conjunct1, THEN mp, THEN conjunct2]
  note recent = get_texture_lru [OF b, where decode = Some
      and cs = "[Call1 ''a.png'', Call1 ''b.png'', Call1 ''a.png'']",
      THEN conjunct2, THEN conjunct2, THEN conjunct2, THEN conjunct2, THEN conjunct1, THEN mp]
  note variant = get_texture_lru [OF b, where decode = Some and c = "Call2 ''a.png'' 90"
      and t = 0, THEN conjunct2, THEN conjunct2, THEN conjunct2, THEN conjunct2,
      THEN conjunct2, THEN conjunct1, THEN mp, THEN conjunct2, THEN conjunct1, THEN mp]
  have p1: "map_of (lru empty_cache) ?a = None \<and> theta_of ?a = 0 \<and> scale_of ?a = 1 \<and>
      Some (path_of ?a) = Some ''a.png''"
    by (simp add: empty_cache_def)
  from store [OF p1]
  have f: "get_texture Some empty_cache ?a =
     (Inr 0, \<lparr>lru = [(?a, 0)], textures = [\<lparr>pil = ''a.png'', path = ''a.png''\<rparr>]\<rparr>)"
    by (simp add: empty_cache_def maxsize_def)
  have p2: "(map_of (lru empty_cache) ?a \<noteq> None \<or> (theta_of ?a = 0 \<and> scale_of ?a = 1)) \<and>
      fst (get_texture Some empty_cache ?a) = Inr 0"
    using f by simp
  from again [OF p2]
  have r: "fst (get_texture Some (snd (get_texture Some empty_cache ?a)) ?a) = Inr 0" .
  have p3: "\<forall>b\<in>set ?cs. theta_of b = 0 \<and> scale_of b = 1 \<and> Some (path_of b) \<noteq> None"
    by simp
  from recent [OF p3]
  have k: "map fst (lru (get_textures Some empty_cache ?cs)) =
      [Call1 ''a.png'', Call1 ''b.png'']"
    by (simp add: empty_cache_def maxsize_def)
  have p4: "map_of (lru empty_cache) ?v = None \<and> \<not> (theta_of ?v = 0 \<and> scale_of ?v = 1)"
    by (simp add: empty_cache_def)
  have p5: "fst (get_texture Some empty_cache (Call1 (path_of ?v))) = Inr 0"
    using f by simp
  from variant [OF p4 p5]
  have v: "map_of (lru (snd (get_texture Some empty_cache ?v))) ?a = Some 0"
    by simp
  from b f r k v show ?thesis by blast
qed

text \<open>
  C6 as stated fails: \<open>get_texture('a.png')\<close> and then \<open>get_texture('a.png', 0, 1)\<close>
  return two different textures, although both name the base texture of the path;
  \<open>get_texture('a.png', 90)\<close> returns no texture but raises \<open>AttributeError\<close>; and
  the construction \<open>Image('a.png')\<close> returns no image but raises \<open>TypeError\<close>.
\<close>

theorem get_texture_counterexample:
  "fst (get_texture Some empty_cache (Call1 ''a.png'')) = Inr 0 \<and>
   fst (get_texture Some (snd (get_texture Some empty_cache (Call1 ''a.png'')))
          (Call3 ''a.png'' 0 1)) = Inr 1 \<and>
   fst (get_texture Some empty_cache (Call2 ''a.png'' 90)) = Inl AttributeError \<and>
   fst (fst (Image_init 1000 Some (\<lambda>t. Inr (PTuple [PInt 8, PInt 8])) Inr module_state
               empty_cache (APath ''a.png'') (PTuple [PInt 0, PInt 0]) ''center'')) =
     Inl TypeError"
proof -
  have m: "map_of (lru empty_cache) (Call2 ''a.png'' (90::int)) = None"
    by (simp add: empty_cache_def)
  from get_texture_variant_miss [OF m, of Some] get_texture_first_call
  have v: "fst (get_texture Some empty_cache (Call2 ''a.png'' 90)) = Inl AttributeError"
    by simp
  have s: "fst (get_texture Some (snd (get_texture Some empty_cache (Call1 ''a.png'')))
          (Call3 ''a.png'' 0 1)) = Inr 1"
    by (simp add: get_texture_first_call get_texture_base_miss lru_store_def maxsize_def)
  have i: "fst (fst (Image_init 1000 Some (\<lambda>t. Inr (PTuple [PInt 8, PInt 8])) Inr module_state
               empty_cache (APath ''a.png'') (PTuple [PInt 0, PInt 0]) ''center'')) =
     Inl TypeError"
    by (simp add: Image_init_def get_texture_first_call Shape_init_kwds_def)
  from v s i get_texture_first_call show ?thesis by simp
qed

section \<open>Shapes: derived transforms, drawing, vertices, construction\<close>

lemma unset_geometric_raises: "unset_geometric depth = RecursionError"
  by (induction depth) simp_all

text \<open>
  C2. Whatever the recursion limit, the store, the shape and the arguments:
  \<open>copy\<close> raises \<open>RecursionError\<close>, and so do \<open>moved\<close>, \<open>rotate\<close> (the derived
  rotation), \<open>transformed\<close> and \<open>rescaled\<close>, before any in-place operation is called.
  No derived transform returns an object; the store is as it was.
\<close>

theorem derived_transforms_RecursionError:
  "copy depth w self = (Inl RecursionError, w) \<and>
   moved depth w self delta = (Inl RecursionError, w) \<and>
   rotate depth w self theta axis = (Inl RecursionError, w) \<and>
   transformed depth w self M = (Inl RecursionError, w) \<and>
   rescaled invoke depth w self val = (Inl RecursionError, w)"
  by (simp add: copy_def moved_def rotate_def transformed_def rescaled_def
      unset_geometric_raises)

text \<open>
  Had the copy been made, the in-place operations would still raise: no class
  implements them.
\<close>

lemma in_place_operations_raise:
  "fst (move w self delta) = Inl NotImplementedError \<and>
   fst (irotate w self theta axis) = Inl NotImplementedError \<and>
   fst (rescale w self scale) = Inl NotImplementedError \<and>
   fst (transform w self M) = Inl NotImplementedError"
  by (simp add: move_def irotate_def rescale_def transform_def)

text \<open>
  C3. The image of the example store has the tag \<open>image\<close>, and the canvas has
  \<open>draw_image\<close>; \<open>draw\<close> does not call it: it looks \<open>draw_image\<close> up on the shape itself,
  so on its primitive, and raises \<open>AttributeError\<close>.
\<close>

theorem Image_draw_misses_canvas:
  "cls (shapes example_world 3) = Image \<and>
   canvas_primitive Image = Some ''image'' \<and>
   ''draw_image'' \<in> set full_canvas \<and>
   draw example_world full_canvas 3 = Inl AttributeError"
  by (simp add: draw_def example_world_def full_canvas_def prim_getattr_def)

lemma Image_draw_never_on_canvas:
  "cls (shapes w self) = Image \<Longrightarrow> draw w canvas self = Inr c \<Longrightarrow> receiver c \<noteq> OnCanvas"
  by (auto simp: draw_def Let_def split: sum.splits attribute.splits)

lemma draw_dispatch:
  "cls (shapes w self) \<in> {Circle, AABB, Poly, Rectangle, TextureImage} \<Longrightarrow>
   canvas_primitive (cls (shapes w self)) = Some tag \<Longrightarrow>
   draw w canvas self = canvas_call canvas (''draw_'' @ tag) self"
  by (auto simp: draw_def)

text \<open>
  C8, as amended. \<open>Poly\<close> and \<open>Rectangle\<close> return the \<open>vertices\<close> attribute of the
  primitive as it is, whatever \<open>tol\<close>; every other class raises
  \<open>NotImplementedError\<close>.
\<close>

theorem get_vertices_by_class:
  "(cls (shapes w self) \<in> {Poly, Rectangle} \<longrightarrow>
      map_of (attrs (prims w (geometric (shapes w self)))) ''vertices'' = Some v \<longrightarrow>
      get_vertices w self tol = Inr (Data v)) \<and>
   (cls (shapes w self) \<in> {Shape, Circle, AABB, Image, TextureImage} \<longrightarrow>
      get_vertices w self tol = Inl NotImplementedError)"
  by (auto simp: get_vertices_def prim_getattr_def)

text \<open>
  The polygon and the circle of the example store.
\<close>

theorem get_vertices_by_class_witness:
  "get_vertices example_world 2 (1 :: int) =
     Inr (Data (PTuple [PTuple [PInt 0, PInt 0], PTuple [PInt 1, PInt 0], PTuple [PInt 0, PInt 1]])) \<and>
   get_vertices example_world 0 (1 :: int) = Inl NotImplementedError"
  using get_vertices_by_class [of example_world 2 _ "1 :: int"]
    get_vertices_by_class [of example_world 0 _ "1 :: int"]
  by (simp add: example_world_def)

text \<open>
  C8 as stated fails: the box of the example store is an \<open>AABB\<close>, and its
  \<open>get_vertices\<close> raises \<open>NotImplementedError\<close>.
\<close>

theorem AABB_get_vertices_counterexample:
  "cls (shapes example_world 1) = AABB \<and>
   get_vertices example_world 1 (1 :: int) = Inl NotImplementedError"
  by (simp add: get_vertices_def example_world_def)


lemma Shape_init_geometric:
  "Shape_init s c g col lcol lw = (Inr sh, s') \<Longrightarrow> geometric sh = g \<and> cls sh = c"
  by (auto simp: Shape_init_def split: prod.splits sum.splits)

text \<open>
  C9, as amended. When \<open>m.Rectangle\<close> returns and no keyword \<open>geometric\<close> is passed,
  the constructor raises \<open>TypeError\<close> and changes nothing; an exception of
  \<open>m.Rectangle\<close> is raised as it is; and when the constructor does return an instance,
  the caller passed \<open>geometric\<close> by keyword, the instance holds that object, and the
  polygon built plays no part (any other polygon gives the same instance).
\<close>

theorem Rectangle_init_TypeError:
  "(mk_rect geometry = Inr obj \<longrightarrow> kw_geometric k = None \<longrightarrow>
      Rectangle_init mk_rect s geometry k = (Inl TypeError, s)) \<and>
   (mk_rect geometry = Inl e \<longrightarrow> Rectangle_init mk_rect s geometry k = (Inl e, s)) \<and>
   (Rectangle_init mk_rect s geometry k = (Inr sh, s') \<longrightarrow>
      kw_geometric k = Some (geometric sh) \<and>
      Rectangle_init (\<lambda>x. Inr other) s geometry k = (Inr sh, s'))"
proof (intro conjI impI)
  assume "mk_rect geometry = Inr obj" "kw_geometric k = None"
  then show "Rectangle_init mk_rect s geometry k = (Inl TypeError, s)"
    by (simp add: Rectangle_init_def Shape_init_kwds_def)
next
  assume "mk_rect geometry = Inl e"
  then show "Rectangle_init mk_rect s geometry k = (Inl e, s)"
    by (simp add: Rectangle_init_def)
next
  assume r: "Rectangle_init mk_rect s geometry k = (Inr sh, s')"
  then have k: "Shape_init_kwds s Rectangle k = (Inr sh, s')"
    by (auto simp: Rectangle_init_def split: sum.splits)
  then show "kw_geometric k = Some (geometric sh)"
    by (auto simp: Shape_init_kwds_def split: if_splits option.splits
        dest: Shape_init_geometric)
  from k show "Rectangle_init (\<lambda>x. Inr other) s geometry k = (Inr sh, s')"
    by (simp add: Rectangle_init_def)
qed

text \<open>
  Right after the module is loaded: a call with a color and no \<open>geometric\<close>, a call
  where \<open>m.Rectangle\<close> raises, and a call that passes \<open>geometric\<close>.
\<close>

theorem Rectangle_init_TypeError_witness:
  "Rectangle_init (\<lambda>x. Inr x) module_state (PTuple [PInt 0, PInt 0, PInt 2, PInt 1])
     (no_kwds\<lparr>kw_color := Some (PStr ''red'')\<rparr>) = (Inl TypeError, module_state) \<and>
   Rectangle_init (\<lambda>x. Inl ValueError :: error + pyval) module_state PNone no_kwds =
     (Inl ValueError, module_state) \<and>
   Rectangle_init (\<lambda>x. Inr PNone) module_state (PTuple [PInt 0, PInt 0, PInt 2, PInt 1])
     (no_kwds\<lparr>kw_geometric := Some 7\<rparr>) =
   (Inr \<lparr>cls = Rectangle, geometric = 7, color = ColorRef 1, line_color = ColorRef 1,
         line_width = 0\<rparr>, module_state)"
proof (intro conjI)
  let ?g = "PTuple [PInt 0, PInt 0, PInt 2, PInt 1]"
  have "kw_geometric (no_kwds\<lparr>kw_color := Some (PStr ''red'')\<rparr>) = None"
    by (simp add: no_kwds_def)
  with Rectangle_init_TypeError [of "\<lambda>x. Inr x" ?g ?g "no_kwds\<lparr>kw_color := Some (PStr ''red'')\<rparr>"
      module_state]
  show "Rectangle_init (\<lambda>x. Inr x) module_state ?g (no_kwds\<lparr>kw_color := Some (PStr ''red'')\<rparr>) =
      (Inl TypeError, module_state)"
    by simp
  from Rectangle_init_TypeError [of "\<lambda>x. Inl ValueError :: error + pyval" PNone PNone no_kwds
      module_state ValueError, THEN conjunct2, THEN conjunct1]
  show "Rectangle_init (\<lambda>x. Inl ValueError :: error + pyval) module_state PNone no_kwds =
      (Inl ValueError, module_state)"
    by simp
  have black: "Color_new module_state [PStr ''black''] = (Inr (ColorRef 1), module_state)"
    by (rule Color_new_hit) (simp add: module_state_def)
  have "Rectangle_init (\<lambda>x. Inr x) module_state ?g (no_kwds\<lparr>kw_geometric := Some 7\<rparr>) =
      (Inr \<lparr>cls = Rectangle, geometric = 7, color = ColorRef 1, line_color = ColorRef 1,
            line_width = 0\<rparr>, module_state)"
    using black
    by (simp add: Rectangle_init_def Shape_init_kwds_def Shape_init_def no_kwds_def)
  with Rectangle_init_TypeError [of "\<lambda>x. Inr x" ?g _ "no_kwds\<lparr>kw_geometric := Some 7\<rparr>"
      module_state _ _ module_state PNone]
  show "Rectangle_init (\<lambda>x. Inr PNone) module_state ?g (no_kwds\<lparr>kw_geometric := Some 7\<rparr>) =
      (Inr \<lparr>cls = Rectangle, geometric = 7, color = ColorRef 1, line_color = ColorRef 1,
            line_width = 0\<rparr>, module_state)"
    by blast
qed

text \<open>
  C9 as stated fails: with \<open>geometric\<close> passed by keyword the constructor returns a
  \<open>Rectangle\<close> instance, with that object as its geometry.
\<close>

theorem Rectangle_init_counterexample:
  "Rectangle_init (\<lambda>x. Inr x) module_state (PTuple [PInt 0, PInt 0, PInt 2, PInt 1])
     (no_kwds\<lparr>kw_geometric := Some 7\<rparr>) =
   (Inr \<lparr>cls = Rectangle, geometric = 7, color = ColorRef 1, line_color = ColorRef 1,
         line_width = 0\<rparr>, module_state)"
proof -
  have "Color_new module_state [PStr ''black''] = (Inr (ColorRef 1), module_state)"
    by (rule Color_new_hit) (simp add: module_state_def)
  then show ?thesis
    by (simp add: Rectangle_init_def Shape_init_kwds_def Shape_init_def no_kwds_def)
qed


end
